theory Spec2Isabelle
  imports Main
begin

section \<open>Strings\<close>

text \<open>
  A string of the program is a \<^typ>\<open>string\<close>: the list of the bytes of its UTF-8
  encoding, which is what the URL serialiser percent-encodes. The operations of the
  JavaScript string library that the scraper calls are written out on that type. Those
  that look for ASCII text (a question mark, \<open>http\<close>, \<open>/in/\<close>, digits) read the bytes as
  the library reads the characters, since no byte of a character beyond ASCII is an
  ASCII byte.
\<close>

text \<open>\<^verbatim>\<open>s.includes(sub)\<close>\<close>

fun str_includes :: "string \<Rightarrow> string \<Rightarrow> bool" where
  "str_includes [] sub = (sub = [])"
| "str_includes (c # cs) sub = (take (length sub) (c # cs) = sub \<or> str_includes cs sub)"

text \<open>\<^verbatim>\<open>s.startsWith(p)\<close>\<close>

definition startsWith :: "string \<Rightarrow> string \<Rightarrow> bool" where
  "startsWith s p = (take (length p) s = p)"

text \<open>\<^verbatim>\<open>s.split('?')[0]\<close>: the part of \<open>s\<close> before its first question mark.\<close>

definition beforeQuery :: "string \<Rightarrow> string" where
  "beforeQuery s = takeWhile (\<lambda>c. c \<noteq> CHR ''?'') s"

text \<open>
  The white space and line terminators that \<^verbatim>\<open>s.trim()\<close> removes, each as the
  bytes of its encoding: U+0009 to U+000D, U+0020, U+00A0, U+1680, U+2000 to U+200A,
  U+2028, U+2029, U+202F, U+205F, U+3000 and U+FEFF.
\<close>

definition whiteSpace :: "string list" where
  "whiteSpace =
     [[CHR 0x09], [CHR 0x0A], [CHR 0x0B], [CHR 0x0C], [CHR 0x0D], [CHR 0x20],
      [CHR 0xC2, CHR 0xA0],
      [CHR 0xE1, CHR 0x9A, CHR 0x80],
      [CHR 0xE2, CHR 0x80, CHR 0x80], [CHR 0xE2, CHR 0x80, CHR 0x81],
      [CHR 0xE2, CHR 0x80, CHR 0x82], [CHR 0xE2, CHR 0x80, CHR 0x83],
      [CHR 0xE2, CHR 0x80, CHR 0x84], [CHR 0xE2, CHR 0x80, CHR 0x85],
      [CHR 0xE2, CHR 0x80, CHR 0x86], [CHR 0xE2, CHR 0x80, CHR 0x87],
      [CHR 0xE2, CHR 0x80, CHR 0x88], [CHR 0xE2, CHR 0x80, CHR 0x89],
      [CHR 0xE2, CHR 0x80, CHR 0x8A],
      [CHR 0xE2, CHR 0x80, CHR 0xA8], [CHR 0xE2, CHR 0x80, CHR 0xA9],
      [CHR 0xE2, CHR 0x80, CHR 0xAF],
      [CHR 0xE2, CHR 0x81, CHR 0x9F],
      [CHR 0xE3, CHR 0x80, CHR 0x80],
      [CHR 0xEF, CHR 0xBB, CHR 0xBF]]"

text \<open>
  \<open>strip ts s\<close> removes from the front of \<open>s\<close> every leading occurrence of one of the
  byte sequences \<open>ts\<close>, until none is left in front.
\<close>

function strip :: "string list \<Rightarrow> string \<Rightarrow> string" where
  "strip ts s =
     (case find (\<lambda>t. t \<noteq> [] \<and> take (length t) s = t) ts of
        None \<Rightarrow> s
      | Some t \<Rightarrow> strip ts (drop (length t) s))"
  by pat_completeness auto
termination
proof (relation "measure (\<lambda>(ts, s). length s)")
  show "wf (measure (\<lambda>(ts, s). length s))" by simp
next
  fix ts :: "string list" and s t :: string
  assume "find (\<lambda>t. t \<noteq> [] \<and> take (length t) s = t) ts = Some t"
  then have "t \<noteq> []" and "take (length t) s = t"
    by (auto simp: find_Some_iff)
  then have "0 < length t" and "length t \<le> length s"
    by (auto simp: take_eq_Nil dest: arg_cong [where f = length])
  then have "length s - length t < length s" by arith
  then show "((ts, drop (length t) s), (ts, s)) \<in> measure (\<lambda>(ts, s). length s)"
    by simp
qed

declare strip.simps [simp del]

text \<open>
  \<^verbatim>\<open>s.trim()\<close>: the white space is removed from the front, and then from the end,
  where the bytes of a character stand in reverse in the reversed string.
\<close>

definition trim :: "string \<Rightarrow> string" where
  "trim s = rev (strip (map rev whiteSpace) (rev (strip whiteSpace s)))"

definition isDigit :: "char \<Rightarrow> bool" where
  "isDigit c = (c \<in> set ''0123456789'')"

text \<open>\<^verbatim>\<open>/^\d+$/.test(s)\<close>: one digit or more, and nothing else.\<close>

definition isNumeric :: "string \<Rightarrow> bool" where
  "isNumeric s = (s \<noteq> [] \<and> list_all isDigit s)"

definition upperChar :: "char \<Rightarrow> char" where
  "upperChar c =
     (let n = (of_char c :: nat)
      in if 97 \<le> n \<and> n \<le> 122 then char_of (n - 32) else c)"

text \<open>
  \<^verbatim>\<open>s.toUpperCase()\<close>, as far as the program can tell: its result is only compared
  with the letters F, S and O. The letters a to z become their capitals, and so does the
  long s (U+017F, the bytes C5 BF), whose capital is S. No other character has F, S or O
  as its capital, and the capitals of the other letters beyond ASCII are left out.
\<close>

fun toUpperCase :: "string \<Rightarrow> string" where
  "toUpperCase [] = []"
| "toUpperCase [c] = [upperChar c]"
| "toUpperCase (c # d # cs) =
     (if c = CHR 0xC5 \<and> d = CHR 0xBF then CHR ''S'' # toUpperCase cs
      else upperChar c # toUpperCase (d # cs))"

text \<open>
  A value that may be \<^verbatim>\<open>undefined\<close> or \<^verbatim>\<open>null\<close> is an option. The
  conditions \<^verbatim>\<open>if (x)\<close> and \<^verbatim>\<open>x || d\<close> on such a string take the empty
  string as they take a missing one.
\<close>

fun truthy :: "string option \<Rightarrow> bool" where
  "truthy None = False"
| "truthy (Some s) = (s \<noteq> [])"

text \<open>\<^verbatim>\<open>x || d\<close>\<close>

fun orElse :: "string option \<Rightarrow> string \<Rightarrow> string" where
  "orElse None d = d"
| "orElse (Some s) d = (if s = [] then d else s)"

text \<open>The decimal numeral of a number, as a template literal prints it.\<close>

definition digitChar :: "nat \<Rightarrow> char" where
  "digitChar d = char_of (48 + d)"

function decimal :: "nat \<Rightarrow> string" where
  "decimal n = (if n < 10 then [digitChar n] else decimal (n div 10) @ [digitChar (n mod 10)])"
  by pat_completeness auto
termination
  by (relation "measure id") auto

declare decimal.simps [simp del]

section \<open>URL search parameters\<close>

text \<open>
  \<^verbatim>\<open>URLSearchParams\<close> is an ordered list of name and value pairs, in which a name
  may occur more than once.
\<close>

type_synonym params = "(string \<times> string) list"

text \<open>\<^verbatim>\<open>params.append(k, v)\<close>\<close>

definition append_param :: "params \<Rightarrow> string \<Rightarrow> string \<Rightarrow> params" where
  "append_param ps k v = ps @ [(k, v)]"

text \<open>\<^verbatim>\<open>params.get(k)\<close>: the value of the first pair named \<open>k\<close>.\<close>

definition get_param :: "params \<Rightarrow> string \<Rightarrow> string option" where
  "get_param ps k = map_of ps k"

text \<open>
  \<^verbatim>\<open>params.set(k, v)\<close>: the first pair named \<open>k\<close> takes the value and the others
  named \<open>k\<close> are removed; with no such pair, the pair is appended.
\<close>

fun set_param :: "params \<Rightarrow> string \<Rightarrow> string \<Rightarrow> params" where
  "set_param [] k v = [(k, v)]"
| "set_param ((k', v') # ps) k v =
     (if k' = k then (k, v) # filter (\<lambda>p. fst p \<noteq> k) ps
      else (k', v') # set_param ps k v)"

text \<open>The values of the pairs named \<open>k\<close>, in order (\<^verbatim>\<open>params.getAll(k)\<close>).\<close>

definition getAll :: "params \<Rightarrow> string \<Rightarrow> string list" where
  "getAll ps k = map snd (filter (\<lambda>p. fst p = k) ps)"

text \<open>
  \<^verbatim>\<open>params.toString()\<close>: the form-urlencoded serialisation. A space becomes a plus
  sign; letters, digits and \<^verbatim>\<open>* - . _\<close> stay; every other character becomes a
  percent sign and two hexadecimal digits.
\<close>

definition isAlnum :: "char \<Rightarrow> bool" where
  "isAlnum c =
     (let n = (of_char c :: nat)
      in (48 \<le> n \<and> n \<le> 57) \<or> (65 \<le> n \<and> n \<le> 90) \<or> (97 \<le> n \<and> n \<le> 122))"

definition hexDigit :: "nat \<Rightarrow> char" where
  "hexDigit d = (if d < 10 then char_of (48 + d) else char_of (55 + d))"

definition encodeChar :: "char \<Rightarrow> string" where
  "encodeChar c =
     (if c = CHR '' '' then ''+''
      else if isAlnum c \<or> c \<in> set ''*-._'' then [c]
      else [CHR ''%'', hexDigit ((of_char c :: nat) div 16), hexDigit ((of_char c :: nat) mod 16)])"

definition urlencode :: "string \<Rightarrow> string" where
  "urlencode s = concat (map encodeChar s)"

fun joinWith :: "string \<Rightarrow> string list \<Rightarrow> string" where
  "joinWith sep [] = []"
| "joinWith sep [x] = x"
| "joinWith sep (x # y # ys) = x @ sep @ joinWith sep (y # ys)"

definition toString :: "params \<Rightarrow> string" where
  "toString ps = joinWith ''&'' (map (\<lambda>(k, v). urlencode k @ ''='' @ urlencode v) ps)"

text \<open>One pair as \<^verbatim>\<open>toString\<close> writes it.\<close>

definition encodePair :: "string \<times> string \<Rightarrow> string" where
  "encodePair p = urlencode (fst p) @ ''='' @ urlencode (snd p)"

text \<open>
  Reading a URL back: \<^verbatim>\<open>new URL(url).searchParams\<close>, the parser of the same
  standard. The query is what stands between the first question mark and the fragment
  (the first number sign); it is split at the ampersands, empty pieces are dropped, each
  piece is split at its first equals sign, and in the name and in the value a plus sign
  is a space and a percent sign with two hexadecimal digits is the byte they denote. The
  parameters that a URL contains are the pairs that this parser finds in it.
\<close>

definition hexValue :: "char \<Rightarrow> nat option" where
  "hexValue c =
     (let n = (of_char c :: nat)
      in if 48 \<le> n \<and> n \<le> 57 then Some (n - 48)
         else if 65 \<le> n \<and> n \<le> 70 then Some (n - 55)
         else if 97 \<le> n \<and> n \<le> 102 then Some (n - 87)
         else None)"

fun percentDecode :: "string \<Rightarrow> string" where
  "percentDecode [] = []"
| "percentDecode (c # cs) =
     (if c = CHR ''%''
      then (case cs of
              a # b # rest \<Rightarrow>
                (case hexValue a of
                   Some x \<Rightarrow>
                     (case hexValue b of
                        Some y \<Rightarrow> char_of (16 * x + y) # percentDecode rest
                      | None \<Rightarrow> c # percentDecode cs)
                 | None \<Rightarrow> c # percentDecode cs)
            | _ \<Rightarrow> c # percentDecode cs)
      else (if c = CHR ''+'' then CHR '' '' else c) # percentDecode cs)"

definition splitOn :: "char \<Rightarrow> string \<Rightarrow> string list" where
  "splitOn sep s = foldr (\<lambda>c acc. if c = sep then [] # acc else (c # hd acc) # tl acc) s [[]]"

definition parsePair :: "string \<Rightarrow> string \<times> string" where
  "parsePair s =
     (percentDecode (takeWhile (\<lambda>c. c \<noteq> CHR ''='') s),
      percentDecode (drop 1 (dropWhile (\<lambda>c. c \<noteq> CHR ''='') s)))"

definition parseQuery :: "string \<Rightarrow> params" where
  "parseQuery q = map parsePair (filter (\<lambda>s. s \<noteq> []) (splitOn CHR ''&'' q))"

definition urlParams :: "string \<Rightarrow> params" where
  "urlParams url =
     parseQuery (drop 1 (dropWhile (\<lambda>c. c \<noteq> CHR ''?'') (takeWhile (\<lambda>c. c \<noteq> CHR ''#'') url)))"

section \<open>The search filters and the query encoder\<close>

record SearchFilters =
  keywords' :: "string option"
  location :: "string option"
  network :: "string option"

text \<open>
  Of the lines that the program writes to the console, those that tell its outcomes
  apart: the rejected network filter, and what the container locator found.
\<close>

datatype diagnostic =
    InvalidNetworkFilter string
  | ContainerFound string
  | SelectorNotFound string
  | NoResultsContainer
  | NoProfileElements
  | ExtractionError

definition baseUrl :: string where
  "baseUrl = ''https://www.linkedin.com/search/results/people/''"

definition defaultGeoUrn :: string where
  "defaultGeoUrn = ''104195383''"

text \<open>The template \<^verbatim>\<open>`["${x}"]`\<close>: a list of one quoted element.\<close>

definition singleton_list :: "string \<Rightarrow> string" where
  "singleton_list x = [CHR ''['', CHR 0x22] @ x @ [CHR 0x22, CHR '']'']"

definition addKeywordsToParams :: "params \<Rightarrow> SearchFilters \<Rightarrow> params" where
  "addKeywordsToParams ps filters =
     (case keywords' filters of
        Some k \<Rightarrow> if k \<noteq> [] then append_param ps ''keywords'' k else ps
      | None \<Rightarrow> ps)"

definition addLocationToParams :: "params \<Rightarrow> SearchFilters \<Rightarrow> params" where
  "addLocationToParams ps filters =
     (let loc = orElse (location filters) defaultGeoUrn
      in if isNumeric loc
         then append_param (append_param ps ''origin'' ''FACETED_SEARCH'')
                ''geoUrn'' (singleton_list loc)
         else let existingKeywords = get_param ps ''keywords'';
                  locationKeywords =
                    (if truthy existingKeywords then the existingKeywords @ '' '' @ loc else loc)
              in set_param ps ''keywords'' locationKeywords)"

text \<open>
  The \<^verbatim>\<open>switch\<close> of \<^verbatim>\<open>addNetworkToParams\<close> on the upper-cased filter: the
  code of the degree, or nothing in the default case.
\<close>

definition networkValue :: "string \<Rightarrow> string option" where
  "networkValue n =
     (let nw = toUpperCase n
      in if nw = ''F'' then Some ''F''
         else if nw = ''S'' then Some ''S''
         else if nw = ''O'' then Some ''O''
         else None)"

definition addNetworkToParams :: "params \<Rightarrow> SearchFilters \<Rightarrow> params \<times> diagnostic list" where
  "addNetworkToParams ps filters =
     (case network filters of
        None \<Rightarrow> (ps, [])
      | Some n \<Rightarrow>
          if n = [] then (ps, [])
          else (case networkValue n of
                  None \<Rightarrow> (ps, [InvalidNetworkFilter n])
                | Some v \<Rightarrow>
                    if v \<noteq> []
                    then (append_param (append_param ps ''origin'' ''FACETED_SEARCH'')
                            ''network'' (singleton_list v), [])
                    else (ps, [])))"

text \<open>
  \<^verbatim>\<open>buildSearchUrl\<close>: the parameters after the three steps, the text of the URL,
  and what the call wrote to the console.
\<close>

definition searchParams :: "SearchFilters \<Rightarrow> params" where
  "searchParams filters =
     fst (addNetworkToParams
            (addLocationToParams (addKeywordsToParams [] filters) filters) filters)"

definition buildSearchUrl :: "SearchFilters \<Rightarrow> string" where
  "buildSearchUrl filters = baseUrl @ ''?'' @ toString (searchParams filters)"

definition buildSearchUrl_console :: "SearchFilters \<Rightarrow> diagnostic list" where
  "buildSearchUrl_console filters =
     snd (addNetworkToParams
            (addLocationToParams (addKeywordsToParams [] filters) filters) filters)"

section \<open>The page\<close>

text \<open>
  The browser is outside the program. A call that awaits it either resolves with a value
  or rejects with an error: the result is a sum, \<open>Inl\<close> for the rejection.

  An element handle that a query returns is read for its \<open>href\<close> attribute and its text
  only. A result row is queried below itself (\<^verbatim>\<open>element.$(selector)\<close>); the page is
  waited on (\<^verbatim>\<open>page.waitForSelector\<close>), asked for its title
  (\<^verbatim>\<open>page.title()\<close>) and queried for one element
  (\<^verbatim>\<open>page.$\<close>) or for all of them (\<^verbatim>\<open>page.$$\<close>). The content of a page
  does not change while records are read from it. Within one step of a selector loop a
  rejection of the read that follows a query has the effect of a rejection of the query
  itself, so rejections stand at the queries.
\<close>

datatype error = Error (message: string)

record handle =
  href :: "string option"
  textContent :: "string option"

record element =
  el_text :: "string option"
  el_query :: "string \<Rightarrow> error + handle option"

record page =
  page_wait :: "string \<Rightarrow> error option"
  page_title :: "error + string"
  page_query :: "string \<Rightarrow> error + handle option"
  page_queryAll :: "string \<Rightarrow> error + element list"

section \<open>Search results: the record extractor\<close>

record LinkedInProfileLink =
  name :: string
  profileUrl :: string
  headline :: "string option"

definition cleanProfileUrl :: "string \<Rightarrow> string" where
  "cleanProfileUrl url =
     (let cleanUrl = beforeQuery url
      in if \<not> startsWith cleanUrl ''http'' then ''https://www.linkedin.com'' @ cleanUrl
         else cleanUrl)"

definition linkSelectors :: "string list" where
  \<open>linkSelectors =
     [''a[href*="/in/"]'',
      ''.app-aware-link[href*="/in/"]'',
      ''.search-result__result-link'',
      ''[data-control-name="search_srp_result"]'']\<close>

text \<open>
  The loop of \<^verbatim>\<open>extractProfileUrl\<close> over its selectors; \<open>None\<close> is the
  \<^verbatim>\<open>null\<close> it returns when no selector gives a link to a profile.
\<close>

fun extractProfileUrl_loop :: "element \<Rightarrow> string list \<Rightarrow> error + string option" where
  "extractProfileUrl_loop profileElement [] = Inr None"
| "extractProfileUrl_loop profileElement (linkSelector # rest) =
     (case el_query profileElement linkSelector of
        Inl e \<Rightarrow> Inl e
      | Inr profileLink \<Rightarrow>
          (case Option.bind profileLink href of
             Some h \<Rightarrow>
               if str_includes h ''/in/'' then Inr (Some (cleanProfileUrl h))
               else extractProfileUrl_loop profileElement rest
           | None \<Rightarrow> extractProfileUrl_loop profileElement rest))"

definition extractProfileUrl :: "element \<Rightarrow> error + string option" where
  "extractProfileUrl profileElement = extractProfileUrl_loop profileElement linkSelectors"

definition nameSelectors :: "string list" where
  \<open>nameSelectors =
     [''.entity-result__title-text a span[aria-hidden="true"]'',
      ''.search-result__result-link span[aria-hidden="true"]'',
      ''.actor-name'',
      ''.search-result__result-link'']\<close>

text \<open>
  The loop of \<^verbatim>\<open>extractProfileName\<close>, and the label it returns after the loop.
\<close>

fun extractProfileName_loop :: "element \<Rightarrow> nat \<Rightarrow> string list \<Rightarrow> error + string" where
  "extractProfileName_loop profileElement index [] = Inr (''Profile '' @ decimal (index + 1))"
| "extractProfileName_loop profileElement index (nameSelector # rest) =
     (case el_query profileElement nameSelector of
        Inl e \<Rightarrow> Inl e
      | Inr None \<Rightarrow> extractProfileName_loop profileElement index rest
      | Inr (Some nameElement) \<Rightarrow>
          (let nm = orElse (textContent nameElement) []
           in if trim nm \<noteq> [] then Inr (trim nm)
              else extractProfileName_loop profileElement index rest))"

definition extractProfileName :: "element \<Rightarrow> nat \<Rightarrow> error + string" where
  "extractProfileName profileElement index =
     extractProfileName_loop profileElement index nameSelectors"

definition headlineSelectors :: "string list" where
  "headlineSelectors =
     [''.entity-result__primary-subtitle'',
      ''.search-result__snippets'',
      ''.subline-level-1'']"

fun extractProfileHeadline_loop :: "element \<Rightarrow> string list \<Rightarrow> error + string option" where
  "extractProfileHeadline_loop profileElement [] = Inr None"
| "extractProfileHeadline_loop profileElement (headlineSelector # rest) =
     (case el_query profileElement headlineSelector of
        Inl e \<Rightarrow> Inl e
      | Inr None \<Rightarrow> extractProfileHeadline_loop profileElement rest
      | Inr (Some headlineElement) \<Rightarrow>
          (let hl = orElse (textContent headlineElement) []
           in if trim hl \<noteq> [] then Inr (Some (trim hl))
              else extractProfileHeadline_loop profileElement rest))"

definition extractProfileHeadline :: "element \<Rightarrow> error + string option" where
  "extractProfileHeadline profileElement =
     extractProfileHeadline_loop profileElement headlineSelectors"

text \<open>
  \<^verbatim>\<open>extractSingleProfile\<close>: the record of one row, or \<open>None\<close> for the
  \<^verbatim>\<open>null\<close> that skips the row. Its \<^verbatim>\<open>catch\<close> turns every rejection into
  a skip.
\<close>

definition extractSingleProfile :: "element \<Rightarrow> nat \<Rightarrow> LinkedInProfileLink option" where
  "extractSingleProfile profileElement index =
     (case extractProfileUrl profileElement of
        Inl e \<Rightarrow> None
      | Inr url \<Rightarrow>
          if \<not> truthy url then None
          else (case extractProfileName profileElement index of
                  Inl e \<Rightarrow> None
                | Inr nm \<Rightarrow>
                    (case extractProfileHeadline profileElement of
                       Inl e \<Rightarrow> None
                     | Inr hl \<Rightarrow>
                         Some \<lparr>name = nm, profileUrl = the url,
                               headline = (if truthy hl then hl else None)\<rparr>)))"

section \<open>Search results: the container locator\<close>

definition searchSelectors :: "string list" where
  "searchSelectors =
     [''.search-results-container'',
      ''.search-results__list'',
      ''.reusable-search__result-container'',
      ''[data-chameleon-result-urn]'']"

text \<open>
  The first loop of \<^verbatim>\<open>extractProfileLinks\<close>: each selector is waited for until
  one resolves. The flag \<^verbatim>\<open>foundResults\<close> and the lines written.
\<close>

fun waitForResults :: "page \<Rightarrow> string list \<Rightarrow> bool \<times> diagnostic list" where
  "waitForResults pg [] = (False, [])"
| "waitForResults pg (selector # rest) =
     (case page_wait pg selector of
        None \<Rightarrow> (True, [ContainerFound selector])
      | Some e \<Rightarrow>
          (let (found, out) = waitForResults pg rest
           in (found, SelectorNotFound selector # out)))"

definition profileSelectors :: "string list" where
  "profileSelectors =
     [''.reusable-search__result-container'',
      ''.search-result'',
      ''.entity-result'',
      ''[data-chameleon-result-urn]'']"

fun getProfileElements_loop :: "page \<Rightarrow> string list \<Rightarrow> error + element list" where
  "getProfileElements_loop pg [] = Inr []"
| "getProfileElements_loop pg (selector # rest) =
     (case page_queryAll pg selector of
        Inl e \<Rightarrow> Inl e
      | Inr elements \<Rightarrow>
          if elements \<noteq> [] then Inr elements else getProfileElements_loop pg rest)"

definition getProfileElements :: "page option \<Rightarrow> error + element list" where
  "getProfileElements this_page =
     (case this_page of
        None \<Rightarrow> Inr []
      | Some pg \<Rightarrow> getProfileElements_loop pg profileSelectors)"

text \<open>The second loop of \<^verbatim>\<open>extractProfileLinks\<close>, over the rows from row \<open>i\<close> on.\<close>

fun collectProfiles :: "element list \<Rightarrow> nat \<Rightarrow> LinkedInProfileLink list" where
  "collectProfiles [] i = []"
| "collectProfiles (profileElement # rest) i =
     (case extractSingleProfile profileElement i of
        Some profile \<Rightarrow> profile # collectProfiles rest (i + 1)
      | None \<Rightarrow> collectProfiles rest (i + 1))"

text \<open>
  \<^verbatim>\<open>extractProfileLinks\<close>. When no container was found the title of the page is
  awaited for the console before any row is read. The \<^verbatim>\<open>catch\<close> around the whole
  body answers the empty list to a rejection, of the title as of a row query.
\<close>

definition extractProfileLinks :: "page option \<Rightarrow> LinkedInProfileLink list \<times> diagnostic list" where
  "extractProfileLinks this_page =
     (case this_page of
        None \<Rightarrow> ([], [])
      | Some pg \<Rightarrow>
          (let (foundResults, out) = waitForResults pg searchSelectors;
               rows =
                 (case getProfileElements (Some pg) of
                    Inl e \<Rightarrow> ([], [ExtractionError])
                  | Inr profileElements \<Rightarrow>
                      if length profileElements = 0 then ([], [NoProfileElements])
                      else (collectProfiles profileElements 0, []))
           in if foundResults then (fst rows, out @ snd rows)
              else (case page_title pg of
                      Inl e \<Rightarrow> ([], out @ [NoResultsContainer, ExtractionError])
                    | Inr pageTitle \<Rightarrow> (fst rows, out @ [NoResultsContainer] @ snd rows))))"

section \<open>The session and the search operation\<close>

text \<open>
  What the browser does during one operation is a script: the answer it gives at each
  point where the program awaits it. Every such point is reached at most once in one
  call, the two navigations to the search URL being two points.
\<close>

record world =
  firstLoad :: "error option"
  loginRequired :: bool
  loginLoad :: "error option"
  loginUrl :: string
  loginForm :: "error option"
  afterLoginUrl :: string
  secondLoad :: "error option"
  resultsPage :: page

text \<open>What the program does to the browser, and what it writes, in order.\<close>

datatype event =
    Navigate string
  | LoginWallCheck
  | LoginAttempt
  | CredentialsSubmitted
  | CookiesSaved
  | Extraction
  | Console diagnostic

definition loginPage :: string where
  "loginPage = ''https://www.linkedin.com/login''"

text \<open>
  \<^verbatim>\<open>loginToLinkedIn\<close>. \<open>loginLoad\<close> is the navigation to the login page,
  \<open>loginUrl\<close> the address read after it, \<open>loginForm\<close> the first rejection, if any, of
  the waits for the two inputs, of filling them, or of the click, and \<open>afterLoginUrl\<close>
  the address read after the click. The \<^verbatim>\<open>catch\<close> answers \<^verbatim>\<open>false\<close> to
  every rejection, and to the error thrown on a challenge page.
\<close>

definition loginToLinkedIn :: "bool \<Rightarrow> world \<Rightarrow> bool \<times> event list" where
  "loginToLinkedIn has_page w =
     (if \<not> has_page then (False, [])
      else case loginLoad w of
             Some e \<Rightarrow> (False, [LoginAttempt, Navigate loginPage])
           | None \<Rightarrow>
               if str_includes (loginUrl w) ''/feed/'' \<or> str_includes (loginUrl w) ''/in/''
               then (True, [LoginAttempt, Navigate loginPage])
               else (case loginForm w of
                       Some e \<Rightarrow> (False, [LoginAttempt, Navigate loginPage])
                     | None \<Rightarrow>
                         if str_includes (afterLoginUrl w) ''/challenge/''
                         then (False, [LoginAttempt, Navigate loginPage, CredentialsSubmitted])
                         else if str_includes (afterLoginUrl w) ''/feed/'' \<or>
                                 str_includes (afterLoginUrl w) ''/in/''
                         then (True, [LoginAttempt, Navigate loginPage, CredentialsSubmitted,
                                      CookiesSaved])
                         else (False, [LoginAttempt, Navigate loginPage, CredentialsSubmitted])))"

text \<open>
  \<^verbatim>\<open>searchPeople\<close>: the profiles or the error thrown, and the trace of the call.
\<close>

definition searchPeople ::
  "bool \<Rightarrow> world \<Rightarrow> SearchFilters \<Rightarrow> (error + LinkedInProfileLink list) \<times> event list" where
  "searchPeople has_page w filters =
     (if \<not> has_page then (Inl (Error ''Browser not initialized. Call init() first.''), [])
      else
        let searchUrl = buildSearchUrl filters;
            t0 = map Console (buildSearchUrl_console filters) @ [Navigate searchUrl]
        in case firstLoad w of
             Some e \<Rightarrow> (Inl e, t0)
           | None \<Rightarrow>
               if loginRequired w
               then (let (loginSuccess, t1) = loginToLinkedIn has_page w
                     in if \<not> loginSuccess
                        then (Inl (Error ''Failed to log in to LinkedIn''),
                              t0 @ [LoginWallCheck] @ t1)
                        else (case secondLoad w of
                                Some e \<Rightarrow>
                                  (Inl e, t0 @ [LoginWallCheck] @ t1 @ [Navigate searchUrl])
                              | None \<Rightarrow>
                                  (let (profiles, out) = extractProfileLinks (Some (resultsPage w))
                                   in (Inr profiles,
                                       t0 @ [LoginWallCheck] @ t1 @ [Navigate searchUrl]
                                       @ [Extraction] @ map Console out))))
               else (let (profiles, out) = extractProfileLinks (Some (resultsPage w))
                     in (Inr profiles,
                         t0 @ [LoginWallCheck] @ [Extraction] @ map Console out)))"

section \<open>The tool handler\<close>

datatype ErrorCode = InternalError | MethodNotFound

datatype McpError = McpError ErrorCode string

record SearchResponse =
  success :: bool
  count :: nat
  profiles :: "LinkedInProfileLink list"
  filters' :: SearchFilters

text \<open>
  The global \<^verbatim>\<open>scraper\<close>: not created yet, or created, with or without a page.
  Creating it reads the configuration (\<open>configLoad\<close>); the variable is assigned, and
  \<^verbatim>\<open>init\<close> launches the browser and opens the page (\<open>browserLaunch\<close>) and then
  sets the headers of the page (\<open>setHeaders\<close>). Loading the cookies rejects nothing.
\<close>

datatype scraper = NotCreated | Created bool

record startup =
  configLoad :: "error option"
  browserLaunch :: "error option"
  setHeaders :: "error option"

definition initializeScraper :: "scraper \<Rightarrow> startup \<Rightarrow> (error + bool) \<times> scraper" where
  "initializeScraper sc st =
     (case sc of
        Created has_page \<Rightarrow> (Inr has_page, sc)
      | NotCreated \<Rightarrow>
          (case configLoad st of
             Some e \<Rightarrow> (Inl e, NotCreated)
           | None \<Rightarrow>
               (case browserLaunch st of
                  Some e \<Rightarrow> (Inl e, Created False)
                | None \<Rightarrow>
                    (case setHeaders st of
                       Some e \<Rightarrow> (Inl e, Created True)
                     | None \<Rightarrow> (Inr True, Created True)))))"

text \<open>
  The handler of a tool call, for the tool named \<open>tool\<close> with the arguments given
  (a map from the names of the arguments to their values, or no arguments at all).
\<close>

definition argumentFilters :: "(string \<rightharpoonup> string) option \<Rightarrow> SearchFilters" where
  "argumentFilters arguments =
     (let args = (case arguments of Some a \<Rightarrow> a | None \<Rightarrow> Map.empty)
      in \<lparr>keywords' = args ''keywords'', location = args ''location'',
          network = args ''network''\<rparr>)"

definition callTool ::
  "scraper \<Rightarrow> startup \<Rightarrow> world \<Rightarrow> string \<Rightarrow> (string \<rightharpoonup> string) option
     \<Rightarrow> McpError + SearchResponse" where
  "callTool sc st w tool arguments =
     (if tool = ''search-linkedin-people''
      then let fs = argumentFilters arguments
           in case fst (initializeScraper sc st) of
                Inl e \<Rightarrow> Inl (McpError InternalError (''LinkedIn search failed: '' @ message e))
              | Inr has_page \<Rightarrow>
                  (case fst (searchPeople has_page w fs) of
                     Inl e \<Rightarrow>
                       Inl (McpError InternalError (''LinkedIn search failed: '' @ message e))
                   | Inr ps \<Rightarrow>
                       Inr \<lparr>success = True, count = length ps, profiles = ps, filters' = fs\<rparr>)
      else Inl (McpError MethodNotFound (''Unknown tool: '' @ tool)))"

section \<open>What a selector finds\<close>

text \<open>
  For stating what a candidate of a selector chain yields below a row: no text (no
  element, or an element whose text is blank), or a link to a profile.
\<close>

definition blank :: "handle option \<Rightarrow> bool" where
  "blank r = (case r of None \<Rightarrow> True | Some h \<Rightarrow> trim (orElse (textContent h) []) = [])"

definition yieldsNoText :: "element \<Rightarrow> string \<Rightarrow> bool" where
  "yieldsNoText el s = (case el_query el s of Inl e \<Rightarrow> False | Inr r \<Rightarrow> blank r)"

definition yieldsLink :: "element \<Rightarrow> string \<Rightarrow> bool" where
  "yieldsLink el s =
     (case el_query el s of
        Inl e \<Rightarrow> False
      | Inr r \<Rightarrow>
          (case Option.bind r href of None \<Rightarrow> False | Some h \<Rightarrow> str_includes h ''/in/''))"

section \<open>A worked example\<close>

text \<open>
  A result row with a link to a profile and a name, a row with the link only, a row
  with nothing, and a results page that lists them under the third row selector.
\<close>

definition example_link :: handle where
  "example_link = \<lparr>href = Some ''/in/jane-doe?trk=search'', textContent = Some ''Jane Doe''\<rparr>"

definition example_name :: handle where
  "example_name = \<lparr>href = None, textContent = Some ''  Jane Doe ''\<rparr>"

definition example_row :: element where
  \<open>example_row =
     \<lparr>el_text = None,
      el_query = (\<lambda>s. if s = ''a[href*="/in/"]'' then Inr (Some example_link)
                      else if s = ''.actor-name'' then Inr (Some example_name)
                      else Inr None)\<rparr>\<close>

definition unnamed_row :: element where
  \<open>unnamed_row =
     \<lparr>el_text = None,
      el_query = (\<lambda>s. if s = ''a[href*="/in/"]'' then Inr (Some example_link) else Inr None)\<rparr>\<close>

definition empty_row :: element where
  "empty_row = \<lparr>el_text = None, el_query = (\<lambda>s. Inr None)\<rparr>"

definition example_page :: page where
  "example_page =
     \<lparr>page_wait = (\<lambda>s. if s = ''.search-results__list'' then None
                       else Some (Error ''Timeout 15000ms exceeded'')),
      page_title = Inr ''Search | LinkedIn'',
      page_query = (\<lambda>s. Inr None),
      page_queryAll = (\<lambda>s. if s = ''.entity-result''
                          then Inr [example_row, empty_row, unnamed_row] else Inr [])\<rparr>"

text \<open>A results page with a results area and no row.\<close>

definition empty_page :: page where
  "empty_page =
     \<lparr>page_wait = (\<lambda>s. None), page_title = Inr ''Search | LinkedIn'',
      page_query = (\<lambda>s. Inr None), page_queryAll = (\<lambda>s. Inr [])\<rparr>"

text \<open>
  A session that meets the login wall, logs in with the form, and then sees the page; the
  same with a login that stays on the login page.
\<close>

definition example_world :: world where
  "example_world =
     \<lparr>firstLoad = None, loginRequired = True, loginLoad = None,
      loginUrl = ''https://www.linkedin.com/login'', loginForm = None,
      afterLoginUrl = ''https://www.linkedin.com/feed/'', secondLoad = None,
      resultsPage = example_page\<rparr>"

definition refused_world :: world where
  "refused_world = example_world\<lparr>afterLoginUrl := ''https://www.linkedin.com/login''\<rparr>"

text \<open>
  A results page on which the query of the second row selector is rejected while the
  third row selector finds a row; a row on which the query of the second name selector
  is rejected while the third name selector finds the name; and a row that has its link
  while the query of its first headline selector is rejected.
\<close>

definition rejecting_page :: page where
  "rejecting_page =
     \<lparr>page_wait = (\<lambda>s. None),
      page_title = Inr ''Search | LinkedIn'',
      page_query = (\<lambda>s. Inr None),
      page_queryAll = (\<lambda>s. if s = ''.search-result'' then Inl (Error ''Target closed'')
                          else if s = ''.entity-result'' then Inr [example_row]
                          else Inr [])\<rparr>"

definition detached_row :: element where
  \<open>detached_row =
     \<lparr>el_text = None,
      el_query = (\<lambda>s. if s = ''.search-result__result-link span[aria-hidden="true"]''
                      then Inl (Error ''Element is not attached to the DOM'')
                      else if s = ''.actor-name'' then Inr (Some example_name)
                      else Inr None)\<rparr>\<close>

definition rejecting_row :: element where
  \<open>rejecting_row =
     \<lparr>el_text = None,
      el_query = (\<lambda>s. if s = ''a[href*="/in/"]'' then Inr (Some example_link)
                      else if s = ''.entity-result__primary-subtitle''
                      then Inl (Error ''Element is not attached to the DOM'')
                      else Inr None)\<rparr>\<close>

section \<open>The full profile\<close>

text \<open>
  The variant of the server that also scrapes one profile page. Its functions for the
  search are those above; the ones below read a profile from the page.
\<close>

record Experience =
  title :: string
  company :: string
  duration :: string
  description :: "string option"

record Education =
  school :: string
  degree :: "string option"
  years :: "string option"

record LinkedInProfile =
  profile_name :: string
  profile_headline :: "string option"
  profile_location :: "string option"
  profile_about :: "string option"
  experience :: "Experience list option"
  education :: "Education list option"
  skills :: "string list option"
  profile_url :: string

text \<open>
  The loop of \<^verbatim>\<open>extractProfileNameFromPage\<close>,
  \<^verbatim>\<open>extractProfileHeadlineFromPage\<close> and \<^verbatim>\<open>extractProfileLocation\<close>:
  each step is in a \<^verbatim>\<open>try\<close> of its own, so a rejection moves on to the next
  selector. \<open>None\<close> is the end of the loop without a text.
\<close>

fun pageText_loop :: "page \<Rightarrow> string list \<Rightarrow> string option" where
  "pageText_loop pg [] = None"
| "pageText_loop pg (selector # rest) =
     (case page_query pg selector of
        Inl e \<Rightarrow> pageText_loop pg rest
      | Inr el \<Rightarrow>
          (case Option.bind el textContent of
             Some t \<Rightarrow> if trim t \<noteq> [] then Some (trim t) else pageText_loop pg rest
           | None \<Rightarrow> pageText_loop pg rest))"

definition pageNameSelectors :: "string list" where
  "pageNameSelectors =
     [''.pv-text-details__left-panel h1'',
      ''.pv-top-card--list-bullet .pv-text-details__left-panel h1'',
      ''.pv-top-card--list .pv-text-details__left-panel h1'',
      ''.pv-top-card .pv-text-details__left-panel h1'']"

definition extractProfileNameFromPage :: "page option \<Rightarrow> string" where
  "extractProfileNameFromPage this_page =
     (case this_page of
        None \<Rightarrow> ''Unknown''
      | Some pg \<Rightarrow>
          (case pageText_loop pg pageNameSelectors of
             Some nm \<Rightarrow> nm
           | None \<Rightarrow> ''Unknown''))"

definition pageHeadlineSelectors :: "string list" where
  "pageHeadlineSelectors =
     [''.pv-text-details__left-panel .text-body-medium.break-words'',
      ''.pv-top-card--list-bullet .text-body-medium.break-words'',
      ''.pv-top-card .pv-text-details__left-panel .text-body-medium'',
      ''.pv-top-card--list .pv-text-details__left-panel .text-body-medium'']"

definition extractProfileHeadlineFromPage :: "page option \<Rightarrow> string option" where
  "extractProfileHeadlineFromPage this_page =
     (case this_page of
        None \<Rightarrow> None
      | Some pg \<Rightarrow> pageText_loop pg pageHeadlineSelectors)"

definition locationSelectors :: "string list" where
  "locationSelectors =
     [''.pv-text-details__left-panel .text-body-small.inline.t-black--light.break-words'',
      ''.pv-top-card--list-bullet .text-body-small.inline.t-black--light.break-words'',
      ''.pv-top-card .pv-text-details__left-panel .text-body-small.inline'']"

definition extractProfileLocation :: "page option \<Rightarrow> string option" where
  "extractProfileLocation this_page =
     (case this_page of
        None \<Rightarrow> None
      | Some pg \<Rightarrow> pageText_loop pg locationSelectors)"

text \<open>
  The loop of \<^verbatim>\<open>extractProfileAbout\<close> has no \<^verbatim>\<open>try\<close> of its own: a
  rejection leaves the loop, and the \<^verbatim>\<open>catch\<close> around the whole body answers
  \<^verbatim>\<open>undefined\<close>. The body first queries the button that expands the section and
  clicks it when it is there; a rejected click leaves the body as a rejected query does.
\<close>

fun aboutText_loop :: "page \<Rightarrow> string list \<Rightarrow> error + string option" where
  "aboutText_loop pg [] = Inr None"
| "aboutText_loop pg (selector # rest) =
     (case page_query pg selector of
        Inl e \<Rightarrow> Inl e
      | Inr el \<Rightarrow>
          (case Option.bind el textContent of
             Some t \<Rightarrow> if trim t \<noteq> [] then Inr (Some (trim t)) else aboutText_loop pg rest
           | None \<Rightarrow> aboutText_loop pg rest))"

definition aboutExpandButton :: string where
  \<open>aboutExpandButton = ''button[aria-label="Show more about section"]''\<close>

definition aboutSelectors :: "string list" where
  "aboutSelectors =
     [''.pv-about-section .pv-shared-text-with-see-more'',
      ''.pv-about__summary-text'',
      ''#about .pv-shared-text-with-see-more'']"

definition extractProfileAbout :: "page option \<Rightarrow> string option" where
  "extractProfileAbout this_page =
     (case this_page of
        None \<Rightarrow> None
      | Some pg \<Rightarrow>
          (case page_query pg aboutExpandButton of
             Inl e \<Rightarrow> None
           | Inr button \<Rightarrow>
               (case aboutText_loop pg aboutSelectors of
                  Inl e \<Rightarrow> None
                | Inr about \<Rightarrow> about)))"

text \<open>
  The loop of the extractors of one field of a list entry
  (\<^verbatim>\<open>extractExperienceTitle\<close>, \<^verbatim>\<open>extractExperienceCompany\<close>,
  \<^verbatim>\<open>extractExperienceDuration\<close>, \<^verbatim>\<open>extractExperienceDescription\<close>,
  \<^verbatim>\<open>extractEducationSchool\<close>, \<^verbatim>\<open>extractEducationDegree\<close>,
  \<^verbatim>\<open>extractEducationYears\<close>), which differ in their selectors only. A
  rejection leaves the function.
\<close>

fun entryText_loop :: "element \<Rightarrow> string list \<Rightarrow> error + string option" where
  "entryText_loop el [] = Inr None"
| "entryText_loop el (selector # rest) =
     (case el_query el selector of
        Inl e \<Rightarrow> Inl e
      | Inr found \<Rightarrow>
          (case Option.bind found textContent of
             Some t \<Rightarrow> if trim t \<noteq> [] then Inr (Some (trim t)) else entryText_loop el rest
           | None \<Rightarrow> entryText_loop el rest))"

definition titleSelectors :: "string list" where
  "titleSelectors =
     [''.pv-entity__summary-info h3'', ''.pv-entity__summary-info .t-16.t-black.t-bold'']"

definition companySelectors :: "string list" where
  "companySelectors =
     [''.pv-entity__secondary-title'', ''.pv-entity__summary-info .t-14.t-black.t-normal'']"

definition durationSelectors :: "string list" where
  "durationSelectors =
     [''.pv-entity__date-range'', ''.pv-entity__summary-info .t-14.t-black--light'']"

definition descSelectors :: "string list" where
  "descSelectors = [''.pv-entity__description'', ''.pv-entity__extra-details'']"

text \<open>
  One step of the loop over the experience entries: the entry pushed, or \<open>None\<close> when
  nothing is pushed (no title and no company, or a rejection caught for this entry).
\<close>

definition extractExperience :: "element \<Rightarrow> Experience option" where
  "extractExperience expElement =
     (case entryText_loop expElement titleSelectors of
        Inl e \<Rightarrow> None
      | Inr t \<Rightarrow>
     (case entryText_loop expElement companySelectors of
        Inl e \<Rightarrow> None
      | Inr c \<Rightarrow>
     (case entryText_loop expElement durationSelectors of
        Inl e \<Rightarrow> None
      | Inr d \<Rightarrow>
     (case entryText_loop expElement descSelectors of
        Inl e \<Rightarrow> None
      | Inr ds \<Rightarrow>
          if truthy t \<or> truthy c
          then Some \<lparr>title = orElse t ''Unknown Title'',
                     company = orElse c ''Unknown Company'',
                     duration = orElse d ''Unknown Duration'',
                     description = ds\<rparr>
          else None))))"

fun collectExperiences :: "element list \<Rightarrow> Experience list" where
  "collectExperiences [] = []"
| "collectExperiences (expElement # rest) =
     (case extractExperience expElement of
        Some x \<Rightarrow> x # collectExperiences rest
      | None \<Rightarrow> collectExperiences rest)"

fun experience_loop :: "page \<Rightarrow> string list \<Rightarrow> error + Experience list" where
  "experience_loop pg [] = Inr []"
| "experience_loop pg (selector # rest) =
     (case page_queryAll pg selector of
        Inl e \<Rightarrow> Inl e
      | Inr experienceElements \<Rightarrow>
          if length experienceElements > 0 then Inr (collectExperiences experienceElements)
          else experience_loop pg rest)"

definition expExpandButton :: string where
  \<open>expExpandButton = ''button[aria-label*="experience"]''\<close>

definition experienceSelectors :: "string list" where
  "experienceSelectors =
     [''.pv-experience-section .pv-profile-section__list-item'',
      ''#experience .pv-profile-section__list-item'']"

definition extractProfileExperience :: "page option \<Rightarrow> Experience list" where
  "extractProfileExperience this_page =
     (case this_page of
        None \<Rightarrow> []
      | Some pg \<Rightarrow>
          (case page_query pg expExpandButton of
             Inl e \<Rightarrow> []
           | Inr button \<Rightarrow>
               (case experience_loop pg experienceSelectors of
                  Inl e \<Rightarrow> []
                | Inr experiences \<Rightarrow> experiences)))"

definition schoolSelectors :: "string list" where
  "schoolSelectors = [''.pv-entity__school-name'']"

definition degreeSelectors :: "string list" where
  "degreeSelectors = [''.pv-entity__degree-name'']"

definition yearsSelectors :: "string list" where
  "yearsSelectors = [''.pv-entity__dates'']"

definition extractEducation :: "element \<Rightarrow> Education option" where
  "extractEducation eduElement =
     (case entryText_loop eduElement schoolSelectors of
        Inl e \<Rightarrow> None
      | Inr s \<Rightarrow>
     (case entryText_loop eduElement degreeSelectors of
        Inl e \<Rightarrow> None
      | Inr dg \<Rightarrow>
     (case entryText_loop eduElement yearsSelectors of
        Inl e \<Rightarrow> None
      | Inr ys \<Rightarrow>
          if truthy s then Some \<lparr>school = the s, degree = dg, years = ys\<rparr> else None)))"

fun collectEducation :: "element list \<Rightarrow> Education list" where
  "collectEducation [] = []"
| "collectEducation (eduElement # rest) =
     (case extractEducation eduElement of
        Some x \<Rightarrow> x # collectEducation rest
      | None \<Rightarrow> collectEducation rest)"

fun education_loop :: "page \<Rightarrow> string list \<Rightarrow> error + Education list" where
  "education_loop pg [] = Inr []"
| "education_loop pg (selector # rest) =
     (case page_queryAll pg selector of
        Inl e \<Rightarrow> Inl e
      | Inr educationElements \<Rightarrow>
          if length educationElements > 0 then Inr (collectEducation educationElements)
          else education_loop pg rest)"

definition educationSelectors :: "string list" where
  "educationSelectors =
     [''.pv-education-section .pv-profile-section__list-item'',
      ''#education .pv-profile-section__list-item'']"

definition extractProfileEducation :: "page option \<Rightarrow> Education list" where
  "extractProfileEducation this_page =
     (case this_page of
        None \<Rightarrow> []
      | Some pg \<Rightarrow>
          (case education_loop pg educationSelectors of
             Inl e \<Rightarrow> []
           | Inr educations \<Rightarrow> educations))"

definition skillsExpandButton :: string where
  \<open>skillsExpandButton = ''button[aria-label*="skills"]''\<close>

definition skillsSelectors :: "string list" where
  "skillsSelectors =
     [''.pv-skills-section .pv-skill-category-entity'', ''#skills .pv-skill-category-entity'']"

fun getSkillElements_loop :: "page \<Rightarrow> string list \<Rightarrow> error + element list" where
  "getSkillElements_loop pg [] = Inr []"
| "getSkillElements_loop pg (selector # rest) =
     (case page_queryAll pg selector of
        Inl e \<Rightarrow> Inl e
      | Inr skillElements \<Rightarrow>
          if length skillElements > 0 then Inr skillElements
          else getSkillElements_loop pg rest)"

text \<open>
  \<^verbatim>\<open>extractSkillNamesFromElements\<close>: the trimmed text of each element that has
  one. An element whose text cannot be read is passed over, as one without text is.
\<close>

fun extractSkillNamesFromElements :: "element list \<Rightarrow> string list" where
  "extractSkillNamesFromElements [] = []"
| "extractSkillNamesFromElements (skillElement # rest) =
     (case el_text skillElement of
        Some t \<Rightarrow>
          if trim t \<noteq> [] then trim t # extractSkillNamesFromElements rest
          else extractSkillNamesFromElements rest
      | None \<Rightarrow> extractSkillNamesFromElements rest)"

definition extractProfileSkills :: "page option \<Rightarrow> string list" where
  "extractProfileSkills this_page =
     (case this_page of
        None \<Rightarrow> []
      | Some pg \<Rightarrow>
          (case page_query pg skillsExpandButton of
             Inl e \<Rightarrow> []
           | Inr button \<Rightarrow>
               (case getSkillElements_loop pg skillsSelectors of
                  Inl e \<Rightarrow> []
                | Inr skillElements \<Rightarrow>
                    if length skillElements > 0
                    then extractSkillNamesFromElements skillElements
                    else [])))"

text \<open>
  \<^verbatim>\<open>extractProfileData\<close>. Each extractor it calls catches the rejections of its
  own queries, so none of the calls throws, and the \<^verbatim>\<open>catch\<close> of this function,
  which would return the name \<open>Unknown\<close> and the URL alone, is never entered.
\<close>

definition extractProfileData :: "page option \<Rightarrow> string \<Rightarrow> error + LinkedInProfile" where
  "extractProfileData this_page profileUrl' =
     (case this_page of
        None \<Rightarrow> Inl (Error ''Page not initialized'')
      | Some pg \<Rightarrow>
          Inr \<lparr>profile_name = extractProfileNameFromPage this_page,
               profile_headline = extractProfileHeadlineFromPage this_page,
               profile_location = extractProfileLocation this_page,
               profile_about = extractProfileAbout this_page,
               experience = Some (extractProfileExperience this_page),
               education = Some (extractProfileEducation this_page),
               skills = Some (extractProfileSkills this_page),
               profile_url = profileUrl'\<rparr>)"

text \<open>
  For stating what a selector yields on the page: no text, when the query is rejected,
  finds no element, or finds one whose text is blank.
\<close>

definition pageYieldsNoText :: "page \<Rightarrow> string \<Rightarrow> bool" where
  "pageYieldsNoText pg s = (case page_query pg s of Inl e \<Rightarrow> True | Inr r \<Rightarrow> blank r)"

text \<open>
  An experience entry that has a company only, one that has a title only, an education
  entry that has a school only, and a profile page with a headline and the first entry.
\<close>

definition example_entry :: element where
  "example_entry =
     \<lparr>el_text = None,
      el_query = (\<lambda>s. if s = ''.pv-entity__secondary-title''
                      then Inr (Some \<lparr>href = None, textContent = Some '' Acme ''\<rparr>)
                      else Inr None)\<rparr>"

definition titled_entry :: element where
  "titled_entry =
     \<lparr>el_text = None,
      el_query = (\<lambda>s. if s = ''.pv-entity__summary-info h3''
                      then Inr (Some \<lparr>href = None, textContent = Some ''Engineer''\<rparr>)
                      else Inr None)\<rparr>"

definition example_school :: element where
  "example_school =
     \<lparr>el_text = None,
      el_query = (\<lambda>s. if s = ''.pv-entity__school-name''
                      then Inr (Some \<lparr>href = None, textContent = Some ''MIT''\<rparr>)
                      else Inr None)\<rparr>"

definition example_profile_page :: page where
  "example_profile_page =
     \<lparr>page_wait = (\<lambda>s. None),
      page_title = Inr ''Jane Doe | LinkedIn'',
      page_query = (\<lambda>s. if s = ''.pv-top-card--list-bullet .text-body-medium.break-words''
                        then Inr (Some \<lparr>href = None, textContent = Some ''Engineer''\<rparr>)
                        else Inr None),
      page_queryAll = (\<lambda>s. if s = ''#experience .pv-profile-section__list-item''
                           then Inr [example_entry] else Inr [])\<rparr>"

section \<open>Properties of the query encoder\<close>

subsection \<open>The parameter list\<close>

text \<open>After \<^verbatim>\<open>set\<close>, one pair has the name, and the other names keep their values.\<close>

lemma getAll_filter_other: "getAll (filter (\<lambda>p. fst p \<noteq> k) ps) k = []"
  by (induction ps) (auto simp: getAll_def)

lemma getAll_filter_same:
  "k' \<noteq> k \<Longrightarrow> getAll (filter (\<lambda>p. fst p \<noteq> k) ps) k' = getAll ps k'"
  by (induction ps) (auto simp: getAll_def)

lemma getAll_set_param_same: "getAll (set_param ps k v) k = [v]"
proof (induction ps)
  case Nil
  show ?case by (simp add: getAll_def)
next
  case (Cons p ps)
  obtain a b where p: "p = (a, b)" by (cases p)
  show ?case
  proof (cases "a = k")
    case True
    have "getAll (filter (\<lambda>p. fst p \<noteq> k) ps) k = []" by (rule getAll_filter_other)
    then show ?thesis using True p by (simp add: getAll_def)
  next
    case False
    then show ?thesis using Cons.IH p by (simp add: getAll_def)
  qed
qed

lemma getAll_set_param_other:
  "k' \<noteq> k \<Longrightarrow> getAll (set_param ps k v) k' = getAll ps k'"
proof (induction ps)
  case Nil
  then show ?case by (simp add: getAll_def)
next
  case (Cons p ps)
  obtain a b where p: "p = (a, b)" by (cases p)
  show ?case
  proof (cases "a = k")
    case True
    have "getAll (filter (\<lambda>p. fst p \<noteq> k) ps) k' = getAll ps k'"
      using Cons.prems by (rule getAll_filter_same)
    then show ?thesis using True p Cons.prems by (simp add: getAll_def)
  next
    case False
    then show ?thesis using Cons p by (simp add: getAll_def)
  qed
qed

lemma addKeywords_cases:
  "addKeywordsToParams [] filters =
     (if truthy (keywords' filters) then [(''keywords'', the (keywords' filters))] else [])"
  by (cases "keywords' filters") (simp_all add: addKeywordsToParams_def append_param_def)

lemma searchParams_numeric:
  assumes "isNumeric (orElse (location filters) defaultGeoUrn)"
  shows "addLocationToParams (addKeywordsToParams [] filters) filters =
     addKeywordsToParams [] filters @
     [(''origin'', ''FACETED_SEARCH''),
      (''geoUrn'', singleton_list (orElse (location filters) defaultGeoUrn))]"
  using assms by (simp add: addLocationToParams_def append_param_def)

lemma searchParams_text:
  assumes "\<not> isNumeric (orElse (location filters) defaultGeoUrn)"
  shows "addLocationToParams (addKeywordsToParams [] filters) filters =
     [(''keywords'',
       if truthy (keywords' filters)
       then the (keywords' filters) @ '' '' @ orElse (location filters) defaultGeoUrn
       else orElse (location filters) defaultGeoUrn)]"
  using assms
  by (cases "keywords' filters")
     (simp_all add: addLocationToParams_def Let_def addKeywords_cases get_param_def)

lemma isNumeric_default: "isNumeric defaultGeoUrn"
  by (simp add: isNumeric_def defaultGeoUrn_def isDigit_def)

lemma text_location_given:
  assumes "\<not> isNumeric (orElse (location filters) defaultGeoUrn)"
  shows "location filters = Some (orElse (location filters) defaultGeoUrn)"
proof (cases "location filters")
  case None
  then show ?thesis using assms isNumeric_default by simp
next
  case (Some s)
  then show ?thesis using assms isNumeric_default by (cases "s = []") simp_all
qed

lemma addNetwork_append:
  "fst (addNetworkToParams ps filters) = ps @ fst (addNetworkToParams [] filters)"
  by (simp add: addNetworkToParams_def append_param_def split: option.splits)

lemma addNetwork_Nil_cases:
  "fst (addNetworkToParams [] filters) = [] \<or>
   (\<exists>v. fst (addNetworkToParams [] filters) =
      [(''origin'', ''FACETED_SEARCH''), (''network'', singleton_list v)])"
  by (auto simp: addNetworkToParams_def append_param_def split: option.splits)

lemma getAll_append: "getAll (ps @ qs) k = getAll ps k @ getAll qs k"
  by (simp add: getAll_def)

lemma getAll_network_part:
  assumes "k \<noteq> ''origin''" and "k \<noteq> ''network''"
  shows "getAll (fst (addNetworkToParams [] filters)) k = []"
  using addNetwork_Nil_cases [of filters] assms by (auto simp: getAll_def)

lemma searchParams_split:
  "searchParams filters =
     addLocationToParams (addKeywordsToParams [] filters) filters @
     fst (addNetworkToParams [] filters)"
  unfolding searchParams_def by (rule addNetwork_append)

subsection \<open>The text of the URL\<close>

lemma encodeChar_digit: "isDigit c \<Longrightarrow> encodeChar c = [c]"
  unfolding isDigit_def by (simp; elim disjE; simp add: encodeChar_def isAlnum_def)

lemma urlencode_digits: "list_all isDigit s \<Longrightarrow> urlencode s = s"
  by (induction s) (simp_all add: urlencode_def encodeChar_digit)

lemma urlencode_numeric: "isNumeric s \<Longrightarrow> urlencode s = s"
  by (simp add: isNumeric_def urlencode_digits)

lemma encode_brackets:
  "encodeChar (CHR ''['') = ''%5B''" "encodeChar (CHR '']'') = ''%5D''"
  "encodeChar (CHR 0x22) = ''%22''"
  by (simp_all add: encodeChar_def isAlnum_def hexDigit_def char_of_eq_iff)

lemma urlencode_singleton_list:
  "urlencode (singleton_list x) = ''%5B%22'' @ urlencode x @ ''%22%5D''"
  by (simp add: singleton_list_def urlencode_def encode_brackets)

lemma urlencode_network_code:
  "v = ''F'' \<or> v = ''S'' \<or> v = ''O'' \<Longrightarrow> urlencode v = v"
  by (elim disjE; simp add: urlencode_def encodeChar_def isAlnum_def)

lemma urlencode_names:
  "urlencode ''origin'' = ''origin''" "urlencode ''geoUrn'' = ''geoUrn''"
  "urlencode ''network'' = ''network''" "urlencode ''keywords'' = ''keywords''"
  "urlencode ''FACETED_SEARCH'' = ''FACETED_SEARCH''"
  by (simp_all add: urlencode_def encodeChar_def isAlnum_def)

subsection \<open>Reading the URL back\<close>

lemma hexDigit_code:
  "d < 16 \<Longrightarrow> (of_char (hexDigit d) :: nat) = (if d < 10 then 48 + d else 55 + d)"
  by (simp add: hexDigit_def)

lemma hexValue_hexDigit: "d < 16 \<Longrightarrow> hexValue (hexDigit d) = Some d"
  by (simp add: hexValue_def hexDigit_code Let_def)

lemma of_char_div_16: "(of_char c :: nat) div 16 < 16"
proof -
  have "(of_char c :: nat) < 256" by simp
  then show ?thesis by arith
qed

lemma char_of_div_mod: "char_of (16 * ((of_char c :: nat) div 16) + of_char c mod 16) = c"
proof -
  have "16 * ((of_char c :: nat) div 16) + of_char c mod 16 = of_char c" by simp
  then show ?thesis by (simp only: char_of_char)
qed

lemma isAlnum_not_special:
  assumes "isAlnum c \<or> c \<in> set ''*-._''"
  shows "c \<noteq> CHR ''%''" and "c \<noteq> CHR ''+''" and "c \<noteq> CHR ''&''" and "c \<noteq> CHR ''=''"
    and "c \<noteq> CHR ''#''"
  using assms by (auto simp: isAlnum_def)

lemma percentDecode_encodeChar: "percentDecode (encodeChar c @ r) = c # percentDecode r"
proof (cases "c = CHR '' ''")
  case True
  then show ?thesis by (simp add: encodeChar_def)
next
  case False
  show ?thesis
  proof (cases "isAlnum c \<or> c \<in> set ''*-._''")
    case True
    then have e: "encodeChar c = [c]" using False by (simp add: encodeChar_def)
    from isAlnum_not_special [OF True] show ?thesis by (simp add: e)
  next
    case safe: False
    have e: "encodeChar c =
        [CHR ''%'', hexDigit ((of_char c :: nat) div 16), hexDigit ((of_char c :: nat) mod 16)]"
      using False safe by (simp add: encodeChar_def)
    have a: "hexValue (hexDigit ((of_char c :: nat) div 16)) = Some (of_char c div 16)"
      by (rule hexValue_hexDigit) (rule of_char_div_16)
    have b: "hexValue (hexDigit ((of_char c :: nat) mod 16)) = Some (of_char c mod 16)"
      by (rule hexValue_hexDigit) simp
    show ?thesis by (simp add: e a b char_of_div_mod)
  qed
qed

lemma percentDecode_urlencode: "percentDecode (urlencode s) = s"
proof (induction s)
  case Nil
  show ?case by (simp add: urlencode_def)
next
  case (Cons c s)
  have "urlencode (c # s) = encodeChar c @ urlencode s" by (simp add: urlencode_def)
  then show ?case using Cons by (simp add: percentDecode_encodeChar)
qed

lemma hexDigit_not_sep:
  assumes "d < 16"
  shows "hexDigit d \<noteq> CHR ''&''" and "hexDigit d \<noteq> CHR ''=''" and "hexDigit d \<noteq> CHR ''#''"
proof -
  have "(of_char (hexDigit d) :: nat) \<noteq> of_char (CHR ''&'')"
    using assms by (simp add: hexDigit_code)
  then show "hexDigit d \<noteq> CHR ''&''" by auto
  have "(of_char (hexDigit d) :: nat) \<noteq> of_char (CHR ''='')"
    using assms by (simp add: hexDigit_code)
  then show "hexDigit d \<noteq> CHR ''=''" by auto
  have "(of_char (hexDigit d) :: nat) \<noteq> of_char (CHR ''#'')"
    using assms by (simp add: hexDigit_code)
  then show "hexDigit d \<noteq> CHR ''#''" by auto
qed

lemma encodeChar_no_sep:
  shows "CHR ''&'' \<notin> set (encodeChar c)" and "CHR ''='' \<notin> set (encodeChar c)"
    and "CHR ''#'' \<notin> set (encodeChar c)"
proof -
  have d1: "(of_char c :: nat) div 16 < 16" by (rule of_char_div_16)
  have d2: "(of_char c :: nat) mod 16 < 16" by simp
  note h = hexDigit_not_sep [OF d1] hexDigit_not_sep [OF d2]
  show "CHR ''&'' \<notin> set (encodeChar c)"
    using h isAlnum_not_special(3) [of c] by (auto simp: encodeChar_def)
  show "CHR ''='' \<notin> set (encodeChar c)"
    using h isAlnum_not_special(4) [of c] by (auto simp: encodeChar_def)
  show "CHR ''#'' \<notin> set (encodeChar c)"
    using h isAlnum_not_special(5) [of c] by (auto simp: encodeChar_def)
qed

lemma urlencode_no_sep:
  shows "CHR ''&'' \<notin> set (urlencode s)" and "CHR ''='' \<notin> set (urlencode s)"
    and "CHR ''#'' \<notin> set (urlencode s)"
  using encodeChar_no_sep by (auto simp: urlencode_def)

lemma splitOn_step:
  assumes "sep \<notin> set x"
  shows "foldr (\<lambda>c acc. if c = sep then [] # acc else (c # hd acc) # tl acc) x (a # acc)
           = (x @ a) # acc"
  using assms by (induction x) auto

lemma splitOn_single: "sep \<notin> set x \<Longrightarrow> splitOn sep x = [x]"
  using splitOn_step [of sep x "[]" "[]"] by (simp add: splitOn_def)

lemma splitOn_Cons_sep: "splitOn sep (sep # y) = [] # splitOn sep y"
  by (simp add: splitOn_def)

lemma splitOn_append:
  assumes "sep \<notin> set x"
  shows "splitOn sep (x @ sep # y) = x # splitOn sep y"
proof -
  have "splitOn sep (x @ sep # y) =
      foldr (\<lambda>c acc. if c = sep then [] # acc else (c # hd acc) # tl acc) x
        ([] # splitOn sep y)"
    by (simp add: splitOn_def)
  also have "\<dots> = (x @ []) # splitOn sep y"
    using assms by (rule splitOn_step)
  finally show ?thesis by simp
qed

lemma splitOn_joinWith:
  assumes "xs \<noteq> []" and "\<forall>x \<in> set xs. sep \<notin> set x"
  shows "splitOn sep (joinWith [sep] xs) = xs"
  using assms
proof (induction "[sep]" xs rule: joinWith.induct)
  case 1
  then show ?case by simp
next
  case (2 x)
  then show ?case by (simp add: splitOn_single)
next
  case (3 x y ys)
  then have "splitOn sep (joinWith [sep] (y # ys)) = y # ys" by simp
  moreover have "sep \<notin> set x" using 3 by simp
  ultimately show ?case by (simp add: splitOn_append)
qed

lemma joinWith_no_char:
  assumes "\<forall>x \<in> set xs. c \<notin> set x" and "c \<notin> set sep"
  shows "c \<notin> set (joinWith sep xs)"
  using assms by (induction sep xs rule: joinWith.induct) simp_all

lemma joinWith_append:
  assumes "xs \<noteq> []" and "ys \<noteq> []"
  shows "joinWith sep (xs @ ys) = joinWith sep xs @ sep @ joinWith sep ys"
  using assms by (induction sep xs rule: joinWith.induct) (auto simp: neq_Nil_conv)

lemma toString_encodePair: "toString ps = joinWith ''&'' (map encodePair ps)"
proof -
  have "(\<lambda>(k, v). urlencode k @ ''='' @ urlencode v) = encodePair"
    by (auto simp: encodePair_def fun_eq_iff)
  then show ?thesis by (simp add: toString_def)
qed

lemma toString_append:
  assumes "ps \<noteq> []" and "qs \<noteq> []"
  shows "toString (ps @ qs) = toString ps @ ''&'' @ toString qs"
  using assms by (simp add: toString_encodePair joinWith_append)

lemma parsePair_encodePair: "parsePair (encodePair p) = p"
proof -
  have t: "takeWhile (\<lambda>c. c \<noteq> CHR ''='') (urlencode (fst p) @ CHR ''='' # urlencode (snd p))
      = urlencode (fst p)"
    using urlencode_no_sep(2) [of "fst p"] by (simp add: takeWhile_append)
  have d: "dropWhile (\<lambda>c. c \<noteq> CHR ''='') (urlencode (fst p) @ CHR ''='' # urlencode (snd p))
      = CHR ''='' # urlencode (snd p)"
    using urlencode_no_sep(2) [of "fst p"] by (simp add: dropWhile_append)
  show ?thesis
    by (simp add: parsePair_def encodePair_def t d percentDecode_urlencode)
qed

lemma encodePair_facts:
  shows "encodePair p \<noteq> []" and "CHR ''&'' \<notin> set (encodePair p)"
    and "CHR ''#'' \<notin> set (encodePair p)"
  using urlencode_no_sep(1,3) by (simp_all add: encodePair_def)

lemma toString_no_fragment: "CHR ''#'' \<notin> set (toString ps)"
  unfolding toString_encodePair
  by (rule joinWith_no_char) (simp_all add: encodePair_facts)

lemma parseQuery_toString: "parseQuery (toString ps) = ps"
proof (cases "ps = []")
  case True
  then show ?thesis by (simp add: parseQuery_def toString_def splitOn_def)
next
  case False
  then have ne: "map encodePair ps \<noteq> []" by simp
  have "\<forall>x \<in> set (map encodePair ps). CHR ''&'' \<notin> set x"
    using encodePair_facts(2) by auto
  from splitOn_joinWith [OF ne this]
  have s: "splitOn CHR ''&'' (toString ps) = map encodePair ps"
    by (simp add: toString_encodePair)
  have f: "filter (\<lambda>s. s \<noteq> []) (map encodePair ps) = map encodePair ps"
    using encodePair_facts(1) by (simp add: filter_id_conv)
  show ?thesis
    by (simp add: parseQuery_def s f parsePair_encodePair map_idI)
qed

text \<open>
  The parameters read back from the URL of a search are the parameters that the three
  steps of the encoder have put together, in their order.
\<close>

lemma urlParams_buildSearchUrl: "urlParams (buildSearchUrl filters) = searchParams filters"
proof -
  have "\<forall>c \<in> set (baseUrl @ CHR ''?'' # toString (searchParams filters)). c \<noteq> CHR ''#''"
    using toString_no_fragment [of "searchParams filters"] by (auto simp: baseUrl_def)
  then have t: "takeWhile (\<lambda>c. c \<noteq> CHR ''#'') (baseUrl @ CHR ''?'' # toString (searchParams filters))
      = baseUrl @ CHR ''?'' # toString (searchParams filters)"
    by (simp only: takeWhile_eq_all_conv)
  have d: "dropWhile (\<lambda>c. c \<noteq> CHR ''?'') (baseUrl @ CHR ''?'' # q) = CHR ''?'' # q" for q
    by (simp add: baseUrl_def)
  have "buildSearchUrl filters = baseUrl @ CHR ''?'' # toString (searchParams filters)"
    by (simp add: buildSearchUrl_def)
  then show ?thesis
    by (simp add: urlParams_def t d parseQuery_toString)
qed

subsection \<open>The network filter\<close>

lemma networkValue_cases:
  "networkValue n = Some v \<Longrightarrow> v = ''F'' \<or> v = ''S'' \<or> v = ''O''"
  by (auto simp: networkValue_def Let_def split: if_splits)

lemma of_char_upperChar:
  "(of_char (upperChar c) :: nat) =
     (if 97 \<le> (of_char c :: nat) \<and> (of_char c :: nat) \<le> 122 then of_char c - 32 else of_char c)"
proof -
  have "(of_char c :: nat) < 256" by simp
  then have "(of_char c :: nat) - 32 < 256" by arith
  then have "((of_char c :: nat) - 32) mod 256 = of_char c - 32" by (rule mod_less)
  then show ?thesis by (simp add: upperChar_def Let_def)
qed

lemma upperChar_eq_iff:
  "upperChar c = d \<longleftrightarrow> (of_char (upperChar c) :: nat) = of_char d"
  by simp

lemma char_eq_code: "c = d \<longleftrightarrow> (of_char c :: nat) = of_char d"
  by simp

lemma upperChar_F: "upperChar c = CHR ''F'' \<longleftrightarrow> c = CHR ''F'' \<or> c = CHR ''f''"
  unfolding upperChar_eq_iff [of c] char_eq_code [of c] of_char_upperChar by (simp; arith)

lemma upperChar_S: "upperChar c = CHR ''S'' \<longleftrightarrow> c = CHR ''S'' \<or> c = CHR ''s''"
  unfolding upperChar_eq_iff [of c] char_eq_code [of c] of_char_upperChar by (simp; arith)

lemma upperChar_O: "upperChar c = CHR ''O'' \<longleftrightarrow> c = CHR ''O'' \<or> c = CHR ''o''"
  unfolding upperChar_eq_iff [of c] char_eq_code [of c] of_char_upperChar by (simp; arith)

lemma toUpperCase_Nil_iff: "toUpperCase s = [] \<longleftrightarrow> s = []"
  by (induction s rule: toUpperCase.induct) simp_all

lemma toUpperCase_single:
  "toUpperCase n = [x] \<longleftrightarrow>
     (\<exists>c. n = [c] \<and> upperChar c = x) \<or> (n = [CHR 0xC5, CHR 0xBF] \<and> x = CHR ''S'')"
proof (cases n rule: toUpperCase.cases)
  case 1
  then show ?thesis by simp
next
  case (2 c)
  then show ?thesis by auto
next
  case (3 c d cs)
  then show ?thesis by (auto simp: toUpperCase_Nil_iff)
qed

text \<open>The valid network filters: the three codes, in either case, and S as a long s.\<close>

lemma networkValue_Some_iff:
  "networkValue n = Some v \<longleftrightarrow>
     (n \<in> {''F'', ''f''} \<and> v = ''F'') \<or>
     (n \<in> {''S'', ''s'', [CHR 0xC5, CHR 0xBF]} \<and> v = ''S'') \<or>
     (n \<in> {''O'', ''o''} \<and> v = ''O'')"
  by (auto simp: networkValue_def Let_def toUpperCase_single upperChar_F upperChar_S upperChar_O)

lemma networkValue_Nil: "networkValue [] = None"
  by (simp add: networkValue_def)

lemma addNetwork_valid:
  assumes "network filters = Some n" and "networkValue n = Some v"
  shows "addNetworkToParams ps filters =
     (ps @ [(''origin'', ''FACETED_SEARCH''), (''network'', singleton_list v)], [])"
proof -
  have "n \<noteq> []" using assms(2) networkValue_Nil by auto
  moreover have "v \<noteq> []" using networkValue_cases [OF assms(2)] by auto
  ultimately show ?thesis
    using assms by (simp add: addNetworkToParams_def append_param_def)
qed

lemma addNetwork_invalid:
  assumes "network filters = Some n" and "n \<noteq> []" and "networkValue n = None"
  shows "addNetworkToParams ps filters = (ps, [InvalidNetworkFilter n])"
  using assms by (simp add: addNetworkToParams_def)

lemma addNetwork_absent:
  assumes "\<not> truthy (network filters)"
  shows "addNetworkToParams ps filters = (ps, [])"
  using assms by (cases "network filters") (simp_all add: addNetworkToParams_def)

lemma addKeywords_network_update:
  "addKeywordsToParams ps (filters\<lparr>network := x\<rparr>) = addKeywordsToParams ps filters"
  by (simp add: addKeywordsToParams_def)

lemma addLocation_network_update:
  "addLocationToParams ps (filters\<lparr>network := x\<rparr>) = addLocationToParams ps filters"
  by (simp add: addLocationToParams_def)

lemma getAll_location_part:
  assumes "k \<noteq> ''origin''" and "k \<noteq> ''geoUrn''" and "k \<noteq> ''keywords''"
  shows "getAll (addLocationToParams (addKeywordsToParams [] filters) filters) k = []"
proof (cases "isNumeric (orElse (location filters) defaultGeoUrn)")
  case True
  show ?thesis
    unfolding searchParams_numeric [OF True]
    using assms by (simp add: addKeywords_cases getAll_def)
next
  case False
  show ?thesis
    unfolding searchParams_text [OF False]
    using assms by (simp add: getAll_def)
qed

lemma invalid_network_effect:
  assumes "network filters = Some n" and "n \<noteq> []" and "networkValue n = None"
  shows "getAll (searchParams filters) ''network'' = [] \<and>
         buildSearchUrl_console filters = [InvalidNetworkFilter n] \<and>
         buildSearchUrl filters = buildSearchUrl (filters\<lparr>network := None\<rparr>) \<and>
         buildSearchUrl_console (filters\<lparr>network := None\<rparr>) = []"
proof -
  let ?ps = "addLocationToParams (addKeywordsToParams [] filters) filters"
  have inv: "addNetworkToParams ?ps filters = (?ps, [InvalidNetworkFilter n])"
    using assms by (rule addNetwork_invalid)
  have "\<not> truthy (network (filters\<lparr>network := None\<rparr>))" by simp
  then have abs: "addNetworkToParams ?ps (filters\<lparr>network := None\<rparr>) = (?ps, [])"
    by (rule addNetwork_absent)
  have params: "searchParams filters = ?ps"
    by (simp add: searchParams_def inv)
  have params': "searchParams (filters\<lparr>network := None\<rparr>) = ?ps"
    by (simp add: searchParams_def addKeywords_network_update addLocation_network_update abs)
  have "getAll ?ps ''network'' = []"
    by (rule getAll_location_part) simp_all
  then have "getAll (searchParams filters) ''network'' = []"
    by (simp add: params)
  moreover have "buildSearchUrl_console filters = [InvalidNetworkFilter n]"
    by (simp add: buildSearchUrl_console_def inv)
  moreover have "buildSearchUrl filters = buildSearchUrl (filters\<lparr>network := None\<rparr>)"
    by (simp add: buildSearchUrl_def params params')
  moreover have "buildSearchUrl_console (filters\<lparr>network := None\<rparr>) = []"
    by (simp add: buildSearchUrl_console_def addKeywords_network_update
        addLocation_network_update abs)
  ultimately show ?thesis by simp
qed

lemma empty_network_silent:
  assumes "network filters = Some []"
  shows "buildSearchUrl_console filters = [] \<and>
         buildSearchUrl filters = buildSearchUrl (filters\<lparr>network := None\<rparr>)"
proof -
  have "\<not> truthy (network filters)" using assms by simp
  then have a: "addNetworkToParams ps filters = (ps, [])" for ps
    by (rule addNetwork_absent)
  have "\<not> truthy (network (filters\<lparr>network := None\<rparr>))" by simp
  then have b: "addNetworkToParams ps (filters\<lparr>network := None\<rparr>) = (ps, [])" for ps
    by (rule addNetwork_absent)
  show ?thesis
    by (simp add: buildSearchUrl_console_def buildSearchUrl_def searchParams_def a b
        addKeywords_network_update addLocation_network_update)
qed

lemma searchParams_valid_network:
  assumes "network filters = Some n" and "networkValue n = Some v"
  shows "searchParams filters =
     addLocationToParams (addKeywordsToParams [] filters) filters @
     [(''origin'', ''FACETED_SEARCH''), (''network'', singleton_list v)]"
  by (simp add: searchParams_def addNetwork_valid [OF assms])

lemma network_param_valid:
  assumes "network filters = Some n" and "networkValue n = Some v"
  shows "(''origin'', ''FACETED_SEARCH'') \<in> set (searchParams filters) \<and>
         getAll (searchParams filters) ''network'' = [singleton_list v]"
proof -
  have "getAll (addLocationToParams (addKeywordsToParams [] filters) filters) ''network'' = []"
    by (rule getAll_location_part) simp_all
  then show ?thesis
    unfolding searchParams_valid_network [OF assms]
    by (simp add: getAll_append) (simp add: getAll_def)
qed

subsection \<open>The text that the network step adds\<close>

lemma set_param_nonempty: "set_param ps k v \<noteq> []"
  by (induction ps k v rule: set_param.induct) simp_all

lemma location_part_nonempty: "addLocationToParams ps filters \<noteq> []"
  by (simp add: addLocationToParams_def append_param_def Let_def set_param_nonempty)

lemma network_part_cases:
  "fst (addNetworkToParams [] filters) =
     (case network filters of
        None \<Rightarrow> []
      | Some n \<Rightarrow>
          (case networkValue n of
             None \<Rightarrow> []
           | Some v \<Rightarrow> [(''origin'', ''FACETED_SEARCH''), (''network'', singleton_list v)]))"
proof (cases "network filters")
  case None
  then show ?thesis by (simp add: addNetworkToParams_def)
next
  case (Some n)
  show ?thesis
  proof (cases "networkValue n")
    case None
    then show ?thesis using Some by (simp add: addNetworkToParams_def)
  next
    case v: (Some v)
    have "n \<noteq> []" using v networkValue_Nil by auto
    moreover have "v \<noteq> []" using networkValue_cases [OF v] by auto
    ultimately show ?thesis
      using Some v by (simp add: addNetworkToParams_def append_param_def)
  qed
qed

lemma network_pair_text:
  assumes "v = ''F'' \<or> v = ''S'' \<or> v = ''O''"
  shows "toString [(''origin'', ''FACETED_SEARCH''), (''network'', singleton_list v)] =
     ''origin=FACETED_SEARCH&network=%5B%22'' @ v @ ''%22%5D''"
  using urlencode_network_code [OF assms]
  by (simp add: toString_def urlencode_names urlencode_singleton_list)

lemma network_part_text:
  assumes "ps \<noteq> []"
  shows "toString (ps @ fst (addNetworkToParams [] filters)) =
     toString ps @
     (case network filters of
        None \<Rightarrow> []
      | Some n \<Rightarrow>
          (case networkValue n of
             None \<Rightarrow> []
           | Some v \<Rightarrow> ''&origin=FACETED_SEARCH&network=%5B%22'' @ v @ ''%22%5D''))"
proof (cases "network filters")
  case None
  then show ?thesis by (simp add: network_part_cases)
next
  case (Some n)
  show ?thesis
  proof (cases "networkValue n")
    case None
    then show ?thesis using Some by (simp add: network_part_cases)
  next
    case v: (Some v)
    have "toString (ps @ [(''origin'', ''FACETED_SEARCH''), (''network'', singleton_list v)]) =
        toString ps @ ''&'' @
        toString [(''origin'', ''FACETED_SEARCH''), (''network'', singleton_list v)]"
      using assms by (rule toString_append) simp
    then show ?thesis
      using Some v network_pair_text [OF networkValue_cases [OF v]]
      by (simp add: network_part_cases)
  qed
qed

lemma buildSearchUrl_text:
  "buildSearchUrl filters =
     baseUrl @ ''?'' @
     toString (addLocationToParams (addKeywordsToParams [] filters) filters) @
     (case network filters of
        None \<Rightarrow> []
      | Some n \<Rightarrow>
          (case networkValue n of
             None \<Rightarrow> []
           | Some v \<Rightarrow> ''&origin=FACETED_SEARCH&network=%5B%22'' @ v @ ''%22%5D''))"
  unfolding buildSearchUrl_def searchParams_split
  by (simp only: network_part_text [OF location_part_nonempty])

lemma buildSearchUrl_no_network:
  "buildSearchUrl (filters\<lparr>network := None\<rparr>) =
     baseUrl @ ''?'' @ toString (addLocationToParams (addKeywordsToParams [] filters) filters)"
  using buildSearchUrl_text [of "filters\<lparr>network := None\<rparr>"]
  by (simp add: addKeywords_network_update addLocation_network_update)

text \<open>
  The URL of a search is the URL of the same filters without the network filter,
  followed by what the network step adds.
\<close>

lemma buildSearchUrl_network:
  "buildSearchUrl filters =
     buildSearchUrl (filters\<lparr>network := None\<rparr>) @
     (case network filters of
        None \<Rightarrow> []
      | Some n \<Rightarrow>
          (case networkValue n of
             None \<Rightarrow> []
           | Some v \<Rightarrow> ''&origin=FACETED_SEARCH&network=%5B%22'' @ v @ ''%22%5D''))"
  by (simp add: buildSearchUrl_text [of filters] buildSearchUrl_no_network)

lemma console_no_network: "buildSearchUrl_console (filters\<lparr>network := None\<rparr>) = []"
  by (simp add: buildSearchUrl_console_def addNetworkToParams_def)

lemma console_cases:
  assumes "network filters = Some n"
  shows "buildSearchUrl_console filters =
     (if n \<noteq> [] \<and> networkValue n = None then [InvalidNetworkFilter n] else [])"
proof (cases "networkValue n")
  case None
  then show ?thesis using assms by (simp add: buildSearchUrl_console_def addNetworkToParams_def)
next
  case (Some v)
  then have "n \<noteq> []" using networkValue_Nil by auto
  then show ?thesis
    using assms Some by (simp add: buildSearchUrl_console_def addNetworkToParams_def)
qed

lemma network_param_cases:
  assumes "network filters = Some n"
  shows "getAll (searchParams filters) ''network'' =
     (case networkValue n of None \<Rightarrow> [] | Some v \<Rightarrow> [singleton_list v])"
proof -
  have "getAll (addLocationToParams (addKeywordsToParams [] filters) filters) ''network'' = []"
    by (rule getAll_location_part) simp_all
  then show ?thesis
    using assms
    by (simp add: searchParams_split getAll_append network_part_cases split: option.splits)
       (simp add: getAll_def)
qed

lemma valid_network_iff:
  "(\<exists>v. networkValue n = Some v) \<longleftrightarrow>
     n \<in> {''F'', ''f'', ''S'', ''s'', [CHR 0xC5, CHR 0xBF], ''O'', ''o''}"
  by (auto simp: networkValue_Some_iff)

text \<open>
  C4, as the code has it. The valid network filters are F, f, S, s, the long s, O
  and o. For every filter object whose network filter is not empty and is none of
  these (the names first, second and thirdPlus are among the rejected), the URL holds no
  \<open>network\<close> parameter, one diagnostic naming the value is written, and the URL is the
  very text that the same filters give with the network filter missing (for which
  nothing is written). An empty network filter is taken as a missing one: the same URL,
  and no diagnostic. A valid network filter writes its parameter, and no diagnostic.
\<close>

theorem invalid_network_ignored:
  assumes "network filters = Some n"
  shows "(n \<noteq> [] \<and> n \<notin> {''F'', ''f'', ''S'', ''s'', [CHR 0xC5, CHR 0xBF], ''O'', ''o''} \<longrightarrow>
            getAll (urlParams (buildSearchUrl filters)) ''network'' = [] \<and>
            buildSearchUrl_console filters = [InvalidNetworkFilter n] \<and>
            buildSearchUrl filters = buildSearchUrl (filters\<lparr>network := None\<rparr>) \<and>
            buildSearchUrl_console (filters\<lparr>network := None\<rparr>) = []) \<and>
         (n = [] \<longrightarrow>
            getAll (urlParams (buildSearchUrl filters)) ''network'' = [] \<and>
            buildSearchUrl_console filters = [] \<and>
            buildSearchUrl filters = buildSearchUrl (filters\<lparr>network := None\<rparr>)) \<and>
         (n \<in> {''first'', ''second'', ''thirdPlus''} \<longrightarrow>
            getAll (urlParams (buildSearchUrl filters)) ''network'' = [] \<and>
            buildSearchUrl_console filters = [InvalidNetworkFilter n] \<and>
            buildSearchUrl filters = buildSearchUrl (filters\<lparr>network := None\<rparr>)) \<and>
         (n \<in> {''F'', ''f'', ''S'', ''s'', [CHR 0xC5, CHR 0xBF], ''O'', ''o''} \<longrightarrow>
            getAll (urlParams (buildSearchUrl filters)) ''network'' \<noteq> [] \<and>
            buildSearchUrl_console filters = [])"
proof -
  have ps: "urlParams (buildSearchUrl filters) = searchParams filters"
    by (rule urlParams_buildSearchUrl)
  have rejected: "getAll (urlParams (buildSearchUrl filters)) ''network'' = [] \<and>
      buildSearchUrl_console filters = [InvalidNetworkFilter n] \<and>
      buildSearchUrl filters = buildSearchUrl (filters\<lparr>network := None\<rparr>) \<and>
      buildSearchUrl_console (filters\<lparr>network := None\<rparr>) = []"
    if ne: "n \<noteq> []"
      and out: "n \<notin> {''F'', ''f'', ''S'', ''s'', [CHR 0xC5, CHR 0xBF], ''O'', ''o''}"
  proof -
    have "\<not> (\<exists>v. networkValue n = Some v)"
      using out by (simp only: valid_network_iff) simp
    then have "networkValue n = None" by simp
    from invalid_network_effect [OF assms ne this] show ?thesis
      unfolding ps by blast
  qed
  have c1: "n \<noteq> [] \<and> n \<notin> {''F'', ''f'', ''S'', ''s'', [CHR 0xC5, CHR 0xBF], ''O'', ''o''} \<longrightarrow>
      getAll (urlParams (buildSearchUrl filters)) ''network'' = [] \<and>
      buildSearchUrl_console filters = [InvalidNetworkFilter n] \<and>
      buildSearchUrl filters = buildSearchUrl (filters\<lparr>network := None\<rparr>) \<and>
      buildSearchUrl_console (filters\<lparr>network := None\<rparr>) = []"
    using rejected by blast
  have c2: "n = [] \<longrightarrow>
      getAll (urlParams (buildSearchUrl filters)) ''network'' = [] \<and>
      buildSearchUrl_console filters = [] \<and>
      buildSearchUrl filters = buildSearchUrl (filters\<lparr>network := None\<rparr>)"
  proof
    assume e: "n = []"
    then have f: "network filters = Some []" using assms by simp
    have "getAll (searchParams filters) ''network'' = []"
      using network_param_cases [OF assms] e by (simp add: networkValue_Nil)
    then show "getAll (urlParams (buildSearchUrl filters)) ''network'' = [] \<and>
        buildSearchUrl_console filters = [] \<and>
        buildSearchUrl filters = buildSearchUrl (filters\<lparr>network := None\<rparr>)"
      using empty_network_silent [OF f] unfolding ps by blast
  qed
  have c3: "n \<in> {''first'', ''second'', ''thirdPlus''} \<longrightarrow>
      getAll (urlParams (buildSearchUrl filters)) ''network'' = [] \<and>
      buildSearchUrl_console filters = [InvalidNetworkFilter n] \<and>
      buildSearchUrl filters = buildSearchUrl (filters\<lparr>network := None\<rparr>)"
  proof
    assume names: "n \<in> {''first'', ''second'', ''thirdPlus''}"
    then have "n \<noteq> []" by auto
    moreover have "n \<notin> {''F'', ''f'', ''S'', ''s'', [CHR 0xC5, CHR 0xBF], ''O'', ''o''}"
      using names by auto
    ultimately show "getAll (urlParams (buildSearchUrl filters)) ''network'' = [] \<and>
        buildSearchUrl_console filters = [InvalidNetworkFilter n] \<and>
        buildSearchUrl filters = buildSearchUrl (filters\<lparr>network := None\<rparr>)"
      using rejected by blast
  qed
  have c4: "n \<in> {''F'', ''f'', ''S'', ''s'', [CHR 0xC5, CHR 0xBF], ''O'', ''o''} \<longrightarrow>
      getAll (urlParams (buildSearchUrl filters)) ''network'' \<noteq> [] \<and>
      buildSearchUrl_console filters = []"
  proof
    assume "n \<in> {''F'', ''f'', ''S'', ''s'', [CHR 0xC5, CHR 0xBF], ''O'', ''o''}"
    then have "\<exists>v. networkValue n = Some v" by (simp only: valid_network_iff)
    then obtain v where v: "networkValue n = Some v" by blast
    have "getAll (searchParams filters) ''network'' = [singleton_list v]"
      using network_param_cases [OF assms] v by simp
    moreover have "buildSearchUrl_console filters = []"
      using console_cases [OF assms] v by simp
    ultimately show "getAll (urlParams (buildSearchUrl filters)) ''network'' \<noteq> [] \<and>
        buildSearchUrl_console filters = []"
      unfolding ps by simp
  qed
  show ?thesis
    by (rule conjI [OF c1 conjI [OF c2 conjI [OF c3 c4]]])
qed

lemmas encoder_defs =
  buildSearchUrl_def buildSearchUrl_console_def searchParams_def addNetworkToParams_def
  addLocationToParams_def addKeywordsToParams_def networkValue_def
  upperChar_def defaultGeoUrn_def isNumeric_def isDigit_def append_param_def get_param_def
  singleton_list_def toString_def urlencode_def encodeChar_def isAlnum_def hexDigit_def
  baseUrl_def getAll_def Let_def char_of_eq_iff

theorem invalid_network_ignored_witness:
  "getAll (urlParams
     (buildSearchUrl \<lparr>keywords' = Some ''AI'', location = None, network = Some ''X''\<rparr>))
     ''network'' = [] \<and>
   buildSearchUrl_console \<lparr>keywords' = Some ''AI'', location = None, network = Some ''X''\<rparr>
     = [InvalidNetworkFilter ''X''] \<and>
   buildSearchUrl \<lparr>keywords' = Some ''AI'', location = None, network = Some ''X''\<rparr>
     = buildSearchUrl \<lparr>keywords' = Some ''AI'', location = None, network = None\<rparr> \<and>
   buildSearchUrl_console \<lparr>keywords' = Some ''AI'', location = None, network = None\<rparr> = [] \<and>
   buildSearchUrl_console \<lparr>keywords' = Some ''AI'', location = None, network = Some []\<rparr>
     = [] \<and>
   buildSearchUrl \<lparr>keywords' = Some ''AI'', location = None, network = Some []\<rparr>
     = buildSearchUrl \<lparr>keywords' = Some ''AI'', location = None, network = None\<rparr> \<and>
   buildSearchUrl_console
     \<lparr>keywords' = Some ''AI'', location = None, network = Some ''thirdPlus''\<rparr>
     = [InvalidNetworkFilter ''thirdPlus''] \<and>
   getAll (urlParams
     (buildSearchUrl \<lparr>keywords' = Some ''AI'', location = None, network = Some ''o''\<rparr>))
     ''network'' \<noteq> []"
  using
    invalid_network_ignored
      [of "\<lparr>keywords' = Some ''AI'', location = None, network = Some ''X''\<rparr>" "''X''"]
    invalid_network_ignored
      [of "\<lparr>keywords' = Some ''AI'', location = None, network = Some []\<rparr>" "[]"]
    invalid_network_ignored
      [of "\<lparr>keywords' = Some ''AI'', location = None, network = Some ''thirdPlus''\<rparr>"
        "''thirdPlus''"]
    invalid_network_ignored
      [of "\<lparr>keywords' = Some ''AI'', location = None, network = Some ''o''\<rparr>" "''o''"]
  by (simp (no_asm_use)) blast

text \<open>
  The claim as the specification has it fails on two sides. An empty network filter is
  outside every valid set, and no diagnostic is written for it. And the code F is outside
  the set of the names first, second and thirdPlus, while its parameter is written and
  the URL differs from the one without the network filter.
\<close>

theorem empty_network_counterexample:
  "networkValue [] = None \<and>
   buildSearchUrl_console \<lparr>keywords' = Some ''AI'', location = None, network = Some []\<rparr>
     = [] \<and>
   buildSearchUrl_console \<lparr>keywords' = Some ''AI'', location = None, network = Some ''F''\<rparr>
     = [] \<and>
   buildSearchUrl \<lparr>keywords' = Some ''AI'', location = None, network = Some ''F''\<rparr> =
     ''https://www.linkedin.com/search/results/people/?keywords=AI&origin=FACETED_SEARCH&geoUrn=%5B%22104195383%22%5D&origin=FACETED_SEARCH&network=%5B%22F%22%5D'' \<and>
   buildSearchUrl \<lparr>keywords' = Some ''AI'', location = None, network = None\<rparr> =
     ''https://www.linkedin.com/search/results/people/?keywords=AI&origin=FACETED_SEARCH&geoUrn=%5B%22104195383%22%5D''"
  by (simp add: encoder_defs)

text \<open>
  C3, as the code has it. The network filter is the code of the degree itself: with F
  or f the URL holds the parameter \<open>network = ["F"]\<close> together with
  \<open>origin = FACETED_SEARCH\<close>, and its text is the text of the URL without the network
  filter followed by \<open>&origin=FACETED_SEARCH&network=%5B%22F%22%5D\<close>; S or s gives
  \<open>["S"]\<close>, and O or o gives \<open>["O"]\<close>, in the same way. The encoder has no mapping
  from the names first, second and thirdPlus: each is reported as an invalid network
  filter, the URL holds no \<open>network\<close> parameter, and its text is the text of the URL
  without the network filter.
\<close>

theorem network_code_encoding:
  assumes "network filters = Some n"
  shows "(n \<in> {''F'', ''f''} \<longrightarrow>
            (''origin'', ''FACETED_SEARCH'') \<in> set (urlParams (buildSearchUrl filters)) \<and>
            getAll (urlParams (buildSearchUrl filters)) ''network'' = [singleton_list ''F''] \<and>
            buildSearchUrl filters =
              buildSearchUrl (filters\<lparr>network := None\<rparr>) @
              ''&origin=FACETED_SEARCH&network=%5B%22F%22%5D'') \<and>
         (n \<in> {''S'', ''s''} \<longrightarrow>
            (''origin'', ''FACETED_SEARCH'') \<in> set (urlParams (buildSearchUrl filters)) \<and>
            getAll (urlParams (buildSearchUrl filters)) ''network'' = [singleton_list ''S''] \<and>
            buildSearchUrl filters =
              buildSearchUrl (filters\<lparr>network := None\<rparr>) @
              ''&origin=FACETED_SEARCH&network=%5B%22S%22%5D'') \<and>
         (n \<in> {''O'', ''o''} \<longrightarrow>
            (''origin'', ''FACETED_SEARCH'') \<in> set (urlParams (buildSearchUrl filters)) \<and>
            getAll (urlParams (buildSearchUrl filters)) ''network'' = [singleton_list ''O''] \<and>
            buildSearchUrl filters =
              buildSearchUrl (filters\<lparr>network := None\<rparr>) @
              ''&origin=FACETED_SEARCH&network=%5B%22O%22%5D'') \<and>
         (n \<in> {''first'', ''second'', ''thirdPlus''} \<longrightarrow>
            getAll (urlParams (buildSearchUrl filters)) ''network'' = [] \<and>
            buildSearchUrl filters = buildSearchUrl (filters\<lparr>network := None\<rparr>) \<and>
            buildSearchUrl_console filters = [InvalidNetworkFilter n])"
proof -
  have ps: "urlParams (buildSearchUrl filters) = searchParams filters"
    by (rule urlParams_buildSearchUrl)
  have code: "(''origin'', ''FACETED_SEARCH'') \<in> set (urlParams (buildSearchUrl filters)) \<and>
      getAll (urlParams (buildSearchUrl filters)) ''network'' = [singleton_list v] \<and>
      buildSearchUrl filters =
        buildSearchUrl (filters\<lparr>network := None\<rparr>) @
        ''&origin=FACETED_SEARCH&network=%5B%22'' @ v @ ''%22%5D''"
    if v: "networkValue n = Some v" for v
  proof -
    have "buildSearchUrl filters =
        buildSearchUrl (filters\<lparr>network := None\<rparr>) @
        ''&origin=FACETED_SEARCH&network=%5B%22'' @ v @ ''%22%5D''"
      using buildSearchUrl_network [of filters] assms v by simp
    then show ?thesis
      using network_param_valid [OF assms v] unfolding ps by blast
  qed
  have c1: "n \<in> {''F'', ''f''} \<longrightarrow>
      (''origin'', ''FACETED_SEARCH'') \<in> set (urlParams (buildSearchUrl filters)) \<and>
      getAll (urlParams (buildSearchUrl filters)) ''network'' = [singleton_list ''F''] \<and>
      buildSearchUrl filters =
        buildSearchUrl (filters\<lparr>network := None\<rparr>) @
        ''&origin=FACETED_SEARCH&network=%5B%22F%22%5D''"
  proof
    assume "n \<in> {''F'', ''f''}"
    then have v: "networkValue n = Some ''F''" by (simp add: networkValue_Some_iff)
    show "(''origin'', ''FACETED_SEARCH'') \<in> set (urlParams (buildSearchUrl filters)) \<and>
      getAll (urlParams (buildSearchUrl filters)) ''network'' = [singleton_list ''F''] \<and>
      buildSearchUrl filters =
        buildSearchUrl (filters\<lparr>network := None\<rparr>) @
        ''&origin=FACETED_SEARCH&network=%5B%22F%22%5D''"
      by (rule code [OF v, simplified])
  qed
  have c2: "n \<in> {''S'', ''s''} \<longrightarrow>
      (''origin'', ''FACETED_SEARCH'') \<in> set (urlParams (buildSearchUrl filters)) \<and>
      getAll (urlParams (buildSearchUrl filters)) ''network'' = [singleton_list ''S''] \<and>
      buildSearchUrl filters =
        buildSearchUrl (filters\<lparr>network := None\<rparr>) @
        ''&origin=FACETED_SEARCH&network=%5B%22S%22%5D''"
  proof
    assume "n \<in> {''S'', ''s''}"
    then have v: "networkValue n = Some ''S''" by (auto simp: networkValue_Some_iff)
    show "(''origin'', ''FACETED_SEARCH'') \<in> set (urlParams (buildSearchUrl filters)) \<and>
      getAll (urlParams (buildSearchUrl filters)) ''network'' = [singleton_list ''S''] \<and>
      buildSearchUrl filters =
        buildSearchUrl (filters\<lparr>network := None\<rparr>) @
        ''&origin=FACETED_SEARCH&network=%5B%22S%22%5D''"
      by (rule code [OF v, simplified])
  qed
  have c3: "n \<in> {''O'', ''o''} \<longrightarrow>
      (''origin'', ''FACETED_SEARCH'') \<in> set (urlParams (buildSearchUrl filters)) \<and>
      getAll (urlParams (buildSearchUrl filters)) ''network'' = [singleton_list ''O''] \<and>
      buildSearchUrl filters =
        buildSearchUrl (filters\<lparr>network := None\<rparr>) @
        ''&origin=FACETED_SEARCH&network=%5B%22O%22%5D''"
  proof
    assume "n \<in> {''O'', ''o''}"
    then have v: "networkValue n = Some ''O''" by (simp add: networkValue_Some_iff)
    show "(''origin'', ''FACETED_SEARCH'') \<in> set (urlParams (buildSearchUrl filters)) \<and>
      getAll (urlParams (buildSearchUrl filters)) ''network'' = [singleton_list ''O''] \<and>
      buildSearchUrl filters =
        buildSearchUrl (filters\<lparr>network := None\<rparr>) @
        ''&origin=FACETED_SEARCH&network=%5B%22O%22%5D''"
      by (rule code [OF v, simplified])
  qed
  have c4: "n \<in> {''first'', ''second'', ''thirdPlus''} \<longrightarrow>
      getAll (urlParams (buildSearchUrl filters)) ''network'' = [] \<and>
      buildSearchUrl filters = buildSearchUrl (filters\<lparr>network := None\<rparr>) \<and>
      buildSearchUrl_console filters = [InvalidNetworkFilter n]"
  proof
    assume names: "n \<in> {''first'', ''second'', ''thirdPlus''}"
    then have ne: "n \<noteq> []" by auto
    have "\<forall>v. networkValue n \<noteq> Some v"
      using names by (auto simp: networkValue_Some_iff)
    then have none: "networkValue n = None" by simp
    from invalid_network_effect [OF assms ne none]
    show "getAll (urlParams (buildSearchUrl filters)) ''network'' = [] \<and>
      buildSearchUrl filters = buildSearchUrl (filters\<lparr>network := None\<rparr>) \<and>
      buildSearchUrl_console filters = [InvalidNetworkFilter n]"
      unfolding ps by blast
  qed
  show ?thesis
    by (rule conjI [OF c1 conjI [OF c2 conjI [OF c3 c4]]])
qed

theorem network_code_encoding_witness:
  "(''origin'', ''FACETED_SEARCH'') \<in>
     set (urlParams
       (buildSearchUrl \<lparr>keywords' = None, location = None, network = Some ''F''\<rparr>)) \<and>
   getAll (urlParams
     (buildSearchUrl \<lparr>keywords' = None, location = None, network = Some ''F''\<rparr>))
     ''network'' = [singleton_list ''F''] \<and>
   buildSearchUrl \<lparr>keywords' = None, location = None, network = Some ''F''\<rparr> =
     ''https://www.linkedin.com/search/results/people/?origin=FACETED_SEARCH&geoUrn=%5B%22104195383%22%5D&origin=FACETED_SEARCH&network=%5B%22F%22%5D'' \<and>
   buildSearchUrl \<lparr>keywords' = None, location = None, network = Some ''s''\<rparr> =
     ''https://www.linkedin.com/search/results/people/?origin=FACETED_SEARCH&geoUrn=%5B%22104195383%22%5D&origin=FACETED_SEARCH&network=%5B%22S%22%5D'' \<and>
   buildSearchUrl \<lparr>keywords' = None, location = None, network = Some ''O''\<rparr> =
     ''https://www.linkedin.com/search/results/people/?origin=FACETED_SEARCH&geoUrn=%5B%22104195383%22%5D&origin=FACETED_SEARCH&network=%5B%22O%22%5D'' \<and>
   buildSearchUrl \<lparr>keywords' = None, location = None, network = Some ''thirdPlus''\<rparr> =
     ''https://www.linkedin.com/search/results/people/?origin=FACETED_SEARCH&geoUrn=%5B%22104195383%22%5D'' \<and>
   buildSearchUrl_console \<lparr>keywords' = None, location = None, network = Some ''thirdPlus''\<rparr>
     = [InvalidNetworkFilter ''thirdPlus'']"
proof -
  have u: "buildSearchUrl \<lparr>keywords' = None, location = None, network = None\<rparr> =
      ''https://www.linkedin.com/search/results/people/?origin=FACETED_SEARCH&geoUrn=%5B%22104195383%22%5D''"
    by (simp add: encoder_defs)
  show ?thesis
    using
      network_code_encoding
        [of "\<lparr>keywords' = None, location = None, network = Some ''F''\<rparr>" "''F''"]
      network_code_encoding
        [of "\<lparr>keywords' = None, location = None, network = Some ''s''\<rparr>" "''s''"]
      network_code_encoding
        [of "\<lparr>keywords' = None, location = None, network = Some ''O''\<rparr>" "''O''"]
      network_code_encoding
        [of "\<lparr>keywords' = None, location = None, network = Some ''thirdPlus''\<rparr>"
          "''thirdPlus''"]
    by (simp (no_asm_use) add: u) blast
qed

text \<open>
  The name \<open>first\<close> is not a network filter of the code: it selects no degree, the URL
  holds no \<open>network\<close> parameter, and it is the URL of the default location alone.
\<close>

theorem network_first_counterexample:
  "networkValue ''first'' = None \<and>
   getAll (urlParams
     (buildSearchUrl \<lparr>keywords' = None, location = None, network = Some ''first''\<rparr>))
     ''network'' = [] \<and>
   buildSearchUrl \<lparr>keywords' = None, location = None, network = Some ''first''\<rparr> =
     ''https://www.linkedin.com/search/results/people/?origin=FACETED_SEARCH&geoUrn=%5B%22104195383%22%5D''"
  by (simp add: urlParams_buildSearchUrl) (simp add: encoder_defs)

subsection \<open>The location filter\<close>

text \<open>
  C1. For every filter object, the URL of the search holds the pair
  \<open>origin = FACETED_SEARCH\<close> and a single \<open>geoUrn\<close> parameter whose value is the
  one-element list of the effective location, if and only if the effective location
  (the location given, or the default code when the location is missing or empty) is
  made of digits only. The text of the URL is then the base address, the keywords if
  any, \<open>origin=FACETED_SEARCH&geoUrn=%5B%22\<close>, the digits, \<open>%22%5D\<close>, and what the
  network filter adds. When the effective location is not made of digits, the location
  was given, the URL holds no \<open>geoUrn\<close> parameter, its single \<open>keywords\<close> parameter
  is the keywords, a space and the location, or the location alone when no keywords
  were given, and its text is the base address, \<open>keywords=\<close> with that value in its
  encoded form, and what the network filter adds.
\<close>

theorem location_encoding:
  "let loc = orElse (location filters) defaultGeoUrn;
       url = buildSearchUrl filters;
       ps = urlParams url;
       merged = (if truthy (keywords' filters) then the (keywords' filters) @ '' '' @ loc
                 else loc);
       net = (case network filters of
                None \<Rightarrow> []
              | Some n \<Rightarrow>
                  (case networkValue n of
                     None \<Rightarrow> []
                   | Some v \<Rightarrow> ''&origin=FACETED_SEARCH&network=%5B%22'' @ v @ ''%22%5D''))
   in (((''origin'', ''FACETED_SEARCH'') \<in> set ps \<and> getAll ps ''geoUrn'' = [singleton_list loc])
         \<longleftrightarrow> isNumeric loc) \<and>
      (isNumeric loc \<longrightarrow>
         url = baseUrl @ ''?'' @
               (if truthy (keywords' filters)
                then ''keywords='' @ urlencode (the (keywords' filters)) @ ''&'' else []) @
               ''origin=FACETED_SEARCH&geoUrn=%5B%22'' @ loc @ ''%22%5D'' @ net) \<and>
      (\<not> isNumeric loc \<longrightarrow>
         location filters = Some loc \<and>
         getAll ps ''geoUrn'' = [] \<and>
         getAll ps ''keywords'' = [merged] \<and>
         url = baseUrl @ ''?keywords='' @ urlencode merged @ net)"
proof -
  let ?loc = "orElse (location filters) defaultGeoUrn"
  let ?ps = "urlParams (buildSearchUrl filters)"
  let ?merged = "if truthy (keywords' filters) then the (keywords' filters) @ '' '' @ ?loc
    else ?loc"
  let ?net = "case network filters of
      None \<Rightarrow> []
    | Some n \<Rightarrow>
        (case networkValue n of
           None \<Rightarrow> []
         | Some v \<Rightarrow> ''&origin=FACETED_SEARCH&network=%5B%22'' @ v @ ''%22%5D'')"
  have ps: "?ps = searchParams filters"
    by (rule urlParams_buildSearchUrl)
  have net_geo: "getAll (fst (addNetworkToParams [] filters)) ''geoUrn'' = []"
    by (rule getAll_network_part) simp_all
  have net_kw: "getAll (fst (addNetworkToParams [] filters)) ''keywords'' = []"
    by (rule getAll_network_part) simp_all
  have numeric: "(''origin'', ''FACETED_SEARCH'') \<in> set ?ps \<and>
      getAll ?ps ''geoUrn'' = [singleton_list ?loc]" if n: "isNumeric ?loc"
  proof -
    have eq: "?ps = addKeywordsToParams [] filters @
        [(''origin'', ''FACETED_SEARCH''), (''geoUrn'', singleton_list ?loc)] @
        fst (addNetworkToParams [] filters)"
      using n searchParams_numeric [of filters]
      by (simp add: ps searchParams_split)
    have "getAll (addKeywordsToParams [] filters) ''geoUrn'' = []"
      by (simp add: addKeywords_cases getAll_def)
    then have "getAll ?ps ''geoUrn'' = [singleton_list ?loc]"
      using net_geo by (simp add: eq getAll_append) (simp add: getAll_def)
    moreover have "(''origin'', ''FACETED_SEARCH'') \<in> set ?ps"
      by (simp add: eq)
    ultimately show ?thesis by simp
  qed
  have url_numeric: "buildSearchUrl filters =
      baseUrl @ ''?'' @
      (if truthy (keywords' filters)
       then ''keywords='' @ urlencode (the (keywords' filters)) @ ''&'' else []) @
      ''origin=FACETED_SEARCH&geoUrn=%5B%22'' @ ?loc @ ''%22%5D'' @ ?net"
    if n: "isNumeric ?loc"
  proof -
    have "toString (addLocationToParams (addKeywordsToParams [] filters) filters) =
        (if truthy (keywords' filters)
         then ''keywords='' @ urlencode (the (keywords' filters)) @ ''&'' else []) @
        ''origin=FACETED_SEARCH&geoUrn=%5B%22'' @ ?loc @ ''%22%5D''"
      unfolding searchParams_numeric [OF n]
      by (simp add: addKeywords_cases toString_def urlencode_names urlencode_singleton_list
          urlencode_numeric [OF n])
    then show ?thesis
      by (simp add: buildSearchUrl_text [of filters])
  qed
  have free_text: "location filters = Some ?loc \<and> getAll ?ps ''geoUrn'' = [] \<and>
      getAll ?ps ''keywords'' = [?merged] \<and>
      buildSearchUrl filters = baseUrl @ ''?keywords='' @ urlencode ?merged @ ?net"
    if n: "\<not> isNumeric ?loc"
  proof -
    have eq: "?ps = [(''keywords'', ?merged)] @ fst (addNetworkToParams [] filters)"
      using n searchParams_text [of filters]
      by (simp add: ps searchParams_split)
    have "getAll ?ps ''geoUrn'' = []"
      using net_geo by (simp add: eq getAll_append) (simp add: getAll_def)
    moreover have "getAll ?ps ''keywords'' = [?merged]"
      using net_kw by (simp add: eq getAll_append) (simp add: getAll_def)
    moreover have "location filters = Some ?loc"
      using n by (rule text_location_given)
    moreover have "buildSearchUrl filters =
        baseUrl @ ''?keywords='' @ urlencode ?merged @ ?net"
      unfolding buildSearchUrl_text [of filters] searchParams_text [OF n]
      by (simp add: toString_def urlencode_names)
    ultimately show ?thesis by simp
  qed
  have "((''origin'', ''FACETED_SEARCH'') \<in> set ?ps \<and> getAll ?ps ''geoUrn'' = [singleton_list ?loc])
      \<longleftrightarrow> isNumeric ?loc"
    using numeric free_text by (cases "isNumeric ?loc") auto
  then show ?thesis
    unfolding Let_def using url_numeric free_text by blast
qed

theorem location_encoding_witness:
  "isNumeric ''105646813'' \<and>
   (''origin'', ''FACETED_SEARCH'') \<in>
     set (urlParams
       (buildSearchUrl \<lparr>keywords' = None, location = Some ''105646813'', network = None\<rparr>)) \<and>
   getAll (urlParams
     (buildSearchUrl \<lparr>keywords' = None, location = Some ''105646813'', network = None\<rparr>))
     ''geoUrn'' = [singleton_list ''105646813''] \<and>
   buildSearchUrl \<lparr>keywords' = None, location = Some ''105646813'', network = None\<rparr> =
     ''https://www.linkedin.com/search/results/people/?origin=FACETED_SEARCH&geoUrn=%5B%22105646813%22%5D'' \<and>
   \<not> isNumeric ''San Francisco'' \<and>
   getAll (urlParams
     (buildSearchUrl \<lparr>keywords' = Some ''AI'', location = Some ''San Francisco'',
       network = None\<rparr>)) ''geoUrn'' = [] \<and>
   getAll (urlParams
     (buildSearchUrl \<lparr>keywords' = Some ''AI'', location = Some ''San Francisco'',
       network = None\<rparr>)) ''keywords'' = [''AI San Francisco''] \<and>
   buildSearchUrl \<lparr>keywords' = Some ''AI'', location = Some ''San Francisco'',
     network = None\<rparr> =
     ''https://www.linkedin.com/search/results/people/?keywords=AI+San+Francisco''"
proof -
  have n: "\<not> isNumeric ''San Francisco''"
    by (simp add: isNumeric_def isDigit_def)
  have d: "isNumeric ''105646813''"
    by (simp add: isNumeric_def isDigit_def)
  show ?thesis
    using n d
      location_encoding
        [of "\<lparr>keywords' = Some ''AI'', location = Some ''San Francisco'', network = None\<rparr>"]
      location_encoding
        [of "\<lparr>keywords' = None, location = Some ''105646813'', network = None\<rparr>"]
    by (simp (no_asm_use) add: Let_def baseUrl_def urlencode_def encodeChar_def isAlnum_def)
      blast
qed

subsection \<open>Both filters\<close>

lemma searchParams_numeric_valid:
  assumes "isNumeric (orElse (location filters) defaultGeoUrn)"
    and "network filters = Some n" and "networkValue n = Some v"
  shows "searchParams filters =
     addKeywordsToParams [] filters @
     [(''origin'', ''FACETED_SEARCH''),
      (''geoUrn'', singleton_list (orElse (location filters) defaultGeoUrn)),
      (''origin'', ''FACETED_SEARCH''),
      (''network'', singleton_list v)]"
  by (simp add: searchParams_valid_network [OF assms(2,3)] searchParams_numeric [OF assms(1)])

text \<open>
  C9. For every filter object whose effective location is made of digits (the default
  code included) and whose network filter is a valid one, the parameters are the
  keywords, if any, followed by \<open>origin\<close>, \<open>geoUrn\<close>, \<open>origin\<close> and \<open>network\<close>: the pair
  \<open>origin = FACETED_SEARCH\<close> stands twice in the parameter list and twice in the text of
  the URL, once from the location step and once from the network step.
\<close>

theorem origin_appended_twice:
  assumes "isNumeric (orElse (location filters) defaultGeoUrn)"
    and "network filters = Some n" and "networkValue n = Some v"
  shows "searchParams filters =
           addKeywordsToParams [] filters @
           [(''origin'', ''FACETED_SEARCH''),
            (''geoUrn'', singleton_list (orElse (location filters) defaultGeoUrn)),
            (''origin'', ''FACETED_SEARCH''),
            (''network'', singleton_list v)] \<and>
         length (filter (\<lambda>p. p = (''origin'', ''FACETED_SEARCH'')) (searchParams filters)) = 2 \<and>
         getAll (searchParams filters) ''origin'' = [''FACETED_SEARCH'', ''FACETED_SEARCH''] \<and>
         buildSearchUrl filters =
           baseUrl @ ''?'' @
           (if truthy (keywords' filters)
            then ''keywords='' @ urlencode (the (keywords' filters)) @ ''&'' else [])
           @ ''origin=FACETED_SEARCH&geoUrn=%5B%22''
           @ orElse (location filters) defaultGeoUrn
           @ ''%22%5D&origin=FACETED_SEARCH&network=%5B%22'' @ v @ ''%22%5D''"
proof -
  let ?loc = "orElse (location filters) defaultGeoUrn"
  note ps = searchParams_numeric_valid [OF assms]
  have enc_loc: "urlencode ?loc = ?loc"
    using assms(1) by (rule urlencode_numeric)
  have enc_v: "urlencode v = v"
    using networkValue_cases [OF assms(3)] by (rule urlencode_network_code)
  have count: "length (filter (\<lambda>p. p = (''origin'', ''FACETED_SEARCH'')) (searchParams filters)) = 2"
    unfolding ps by (simp add: addKeywords_cases)
  have origins: "getAll (searchParams filters) ''origin'' = [''FACETED_SEARCH'', ''FACETED_SEARCH'']"
    unfolding ps by (simp add: addKeywords_cases getAll_def)
  have url: "toString (searchParams filters) =
      (if truthy (keywords' filters)
       then ''keywords='' @ urlencode (the (keywords' filters)) @ ''&'' else [])
      @ ''origin=FACETED_SEARCH&geoUrn=%5B%22'' @ ?loc
      @ ''%22%5D&origin=FACETED_SEARCH&network=%5B%22'' @ v @ ''%22%5D''"
    unfolding ps
    by (simp add: addKeywords_cases toString_def urlencode_names urlencode_singleton_list enc_loc enc_v)
  show ?thesis
    using ps count origins url by (simp add: buildSearchUrl_def)
qed

theorem origin_appended_twice_witness:
  "searchParams \<lparr>keywords' = Some ''data scientist'', location = None, network = Some ''s''\<rparr> =
     [(''keywords'', ''data scientist''),
      (''origin'', ''FACETED_SEARCH''),
      (''geoUrn'', singleton_list ''104195383''),
      (''origin'', ''FACETED_SEARCH''),
      (''network'', singleton_list ''S'')] \<and>
   buildSearchUrl \<lparr>keywords' = Some ''data scientist'', location = None, network = Some ''s''\<rparr> =
     ''https://www.linkedin.com/search/results/people/?keywords=data+scientist&origin=FACETED_SEARCH&geoUrn=%5B%22104195383%22%5D&origin=FACETED_SEARCH&network=%5B%22S%22%5D''"
proof -
  have a: "isNumeric (orElse (location \<lparr>keywords' = Some ''data scientist'', location = None,
      network = Some ''s''\<rparr>) defaultGeoUrn)"
    by (simp add: isNumeric_default)
  have b: "networkValue ''s'' = Some ''S''"
    by (simp add: networkValue_Some_iff)
  show ?thesis
    using origin_appended_twice [OF a _ b]
    by (simp add: addKeywords_cases defaultGeoUrn_def baseUrl_def urlencode_def encodeChar_def
        isAlnum_def)
qed

section \<open>Properties of the extractors\<close>

subsection \<open>Selector chains\<close>

lemma getProfileElements_loop_skip:
  assumes "\<forall>s \<in> set xs. page_queryAll pg s = Inr []"
  shows "getProfileElements_loop pg (xs @ ys) = getProfileElements_loop pg ys"
  using assms by (induction xs) simp_all

lemma getProfileElements_loop_hit:
  assumes "page_queryAll pg s = Inr els" and "els \<noteq> []"
  shows "getProfileElements_loop pg (s # ys) = Inr els"
  using assms by simp

lemma extractProfileName_loop_skip:
  assumes "\<forall>s \<in> set xs. yieldsNoText el s"
  shows "extractProfileName_loop el i (xs @ ys) = extractProfileName_loop el i ys"
  using assms
proof (induction xs)
  case Nil
  show ?case by simp
next
  case (Cons x xs)
  then have "yieldsNoText el x" by simp
  then show ?case
    using Cons by (auto simp: yieldsNoText_def blank_def Let_def split: sum.splits option.splits)
qed

lemma extractProfileName_loop_hit:
  assumes "el_query el s = Inr (Some h)" and "trim (orElse (textContent h) []) \<noteq> []"
  shows "extractProfileName_loop el i (s # ys) = Inr (trim (orElse (textContent h) []))"
  using assms by (simp add: Let_def)

lemma prefix_at:
  assumes "n < length sels"
  shows "sels = take n sels @ sels ! n # drop (Suc n) sels"
  using assms by (rule id_take_nth_drop)

lemma before_in_take:
  assumes "\<forall>i<n. P (sels ! i)" and "n < length sels"
  shows "\<forall>s \<in> set (take n sels). P s"
proof
  fix s assume "s \<in> set (take n sels)"
  then obtain i where "i < length (take n sels)" and "take n sels ! i = s"
    by (auto simp: in_set_conv_nth)
  then have "i < n" and "sels ! i = s" using assms(2) by simp_all
  then show "P s" using assms(1) by auto
qed

text \<open>
  C7, as the code has it. For every page, every row and every ordered list of
  selectors: when the query of every candidate before the Nth resolves and matches
  nothing, and the Nth matches, the chain returns what the Nth candidate gives, which is
  what the chain of that candidate alone returns, and what the chain cut after the Nth
  returns: the candidates are tried in order and those after the first match are not
  consulted. When the candidates before the Nth match nothing and the query of the Nth
  is rejected, the chain ends with that rejection and returns no value, whatever a
  later candidate would match: the loops have no handler of their own. This holds for
  the chain that finds the result rows and for the chain that reads the name of a row.
\<close>

theorem selector_chain_first_match:
  assumes "n < length sels"
  shows "((\<forall>i<n. page_queryAll pg (sels ! i) = Inr []) \<and>
          page_queryAll pg (sels ! n) = Inr els \<and> els \<noteq> [] \<longrightarrow>
            getProfileElements_loop pg sels = Inr els \<and>
            getProfileElements_loop pg sels = getProfileElements_loop pg [sels ! n] \<and>
            getProfileElements_loop pg sels = getProfileElements_loop pg (take (Suc n) sels)) \<and>
         ((\<forall>i<n. yieldsNoText el (sels ! i)) \<and>
          el_query el (sels ! n) = Inr (Some h) \<and> trim (orElse (textContent h) []) \<noteq> [] \<longrightarrow>
            extractProfileName_loop el idx sels = Inr (trim (orElse (textContent h) [])) \<and>
            extractProfileName_loop el idx sels = extractProfileName_loop el idx [sels ! n] \<and>
            extractProfileName_loop el idx sels =
              extractProfileName_loop el idx (take (Suc n) sels)) \<and>
         ((\<forall>i<n. page_queryAll pg (sels ! i) = Inr []) \<and>
          page_queryAll pg (sels ! n) = Inl e \<longrightarrow>
            getProfileElements_loop pg sels = Inl e) \<and>
         ((\<forall>i<n. yieldsNoText el (sels ! i)) \<and> el_query el (sels ! n) = Inl e' \<longrightarrow>
            extractProfileName_loop el idx sels = Inl e')"
proof (intro conjI impI)
  assume a: "(\<forall>i<n. page_queryAll pg (sels ! i) = Inr []) \<and>
    page_queryAll pg (sels ! n) = Inr els \<and> els \<noteq> []"
  then have skip: "\<forall>s \<in> set (take n sels). page_queryAll pg s = Inr []"
    using before_in_take [of n "\<lambda>s. page_queryAll pg s = Inr []" sels] assms by simp
  have hit: "getProfileElements_loop pg (sels ! n # ys) = Inr els" for ys
    using a by (simp add: getProfileElements_loop_hit)
  have "getProfileElements_loop pg (take n sels @ sels ! n # ys) = Inr els" for ys
    using getProfileElements_loop_skip [OF skip] hit by simp
  note whole = this
  have split: "sels = take n sels @ sels ! n # drop (Suc n) sels"
    using assms by (rule prefix_at)
  have cut: "take (Suc n) sels = take n sels @ sels ! n # []"
    using assms by (simp add: take_Suc_conv_app_nth)
  show r: "getProfileElements_loop pg sels = Inr els"
    using whole [of "drop (Suc n) sels"] split by simp
  show "getProfileElements_loop pg sels = getProfileElements_loop pg [sels ! n]"
    using r hit [of "[]"] by simp
  show "getProfileElements_loop pg sels = getProfileElements_loop pg (take (Suc n) sels)"
    using r whole [of "[]"] cut by simp
next
  assume a: "(\<forall>i<n. yieldsNoText el (sels ! i)) \<and>
    el_query el (sels ! n) = Inr (Some h) \<and> trim (orElse (textContent h) []) \<noteq> []"
  let ?v = "trim (orElse (textContent h) [])"
  have skip: "\<forall>s \<in> set (take n sels). yieldsNoText el s"
    using a before_in_take [of n "yieldsNoText el" sels] assms by simp
  have hit: "extractProfileName_loop el idx (sels ! n # ys) = Inr ?v" for ys
    using a by (simp add: extractProfileName_loop_hit)
  have "extractProfileName_loop el idx (take n sels @ sels ! n # ys) = Inr ?v" for ys
    using extractProfileName_loop_skip [OF skip] hit by simp
  note whole = this
  have split: "sels = take n sels @ sels ! n # drop (Suc n) sels"
    using assms by (rule prefix_at)
  have cut: "take (Suc n) sels = take n sels @ sels ! n # []"
    using assms by (simp add: take_Suc_conv_app_nth)
  show r: "extractProfileName_loop el idx sels = Inr ?v"
    using whole [of "drop (Suc n) sels"] split by simp
  show "extractProfileName_loop el idx sels = extractProfileName_loop el idx [sels ! n]"
    using r hit [of "[]"] by simp
  show "extractProfileName_loop el idx sels = extractProfileName_loop el idx (take (Suc n) sels)"
    using r whole [of "[]"] cut by simp
next
  assume a: "(\<forall>i<n. page_queryAll pg (sels ! i) = Inr []) \<and>
    page_queryAll pg (sels ! n) = Inl e"
  then have skip: "\<forall>s \<in> set (take n sels). page_queryAll pg s = Inr []"
    using before_in_take [of n "\<lambda>s. page_queryAll pg s = Inr []" sels] assms by simp
  have hit: "getProfileElements_loop pg (sels ! n # ys) = Inl e" for ys
    using a by simp
  have whole: "getProfileElements_loop pg (take n sels @ sels ! n # ys) = Inl e" for ys
    using getProfileElements_loop_skip [OF skip] hit by simp
  have split: "sels = take n sels @ sels ! n # drop (Suc n) sels"
    using assms by (rule prefix_at)
  show "getProfileElements_loop pg sels = Inl e"
    using whole [of "drop (Suc n) sels"] split by simp
next
  assume a: "(\<forall>i<n. yieldsNoText el (sels ! i)) \<and> el_query el (sels ! n) = Inl e'"
  then have skip: "\<forall>s \<in> set (take n sels). yieldsNoText el s"
    using before_in_take [of n "yieldsNoText el" sels] assms by simp
  have hit: "extractProfileName_loop el idx (sels ! n # ys) = Inl e'" for ys
    using a by simp
  have whole: "extractProfileName_loop el idx (take n sels @ sels ! n # ys) = Inl e'" for ys
    using extractProfileName_loop_skip [OF skip] hit by simp
  have split: "sels = take n sels @ sels ! n # drop (Suc n) sels"
    using assms by (rule prefix_at)
  show "extractProfileName_loop el idx sels = Inl e'"
    using whole [of "drop (Suc n) sels"] split by simp
qed

subsection \<open>The profile URL\<close>



lemma cleanProfileUrl_eq:
  "cleanProfileUrl url =
     (if startsWith (beforeQuery url) ''http'' then beforeQuery url
      else ''https://www.linkedin.com'' @ beforeQuery url)"
  by (simp add: cleanProfileUrl_def Let_def)


lemma cleanProfileUrl_absolute: "startsWith (cleanProfileUrl url) ''http''"
  by (simp add: cleanProfileUrl_eq) (simp add: startsWith_def)

lemma cleanProfileUrl_nonempty: "cleanProfileUrl url \<noteq> []"
  using cleanProfileUrl_absolute [of url] by (auto simp: startsWith_def)

lemma extractProfileUrl_loop_Some:
  assumes "extractProfileUrl_loop el sels = Inr (Some u)"
  shows "\<exists>s \<in> set sels. \<exists>lnk h. el_query el s = Inr (Some lnk) \<and> href lnk = Some h \<and>
           str_includes h ''/in/'' \<and> u = cleanProfileUrl h"
  using assms
proof (induction sels)
  case Nil
  then show ?case by simp
next
  case (Cons s sels)
  show ?case
  proof (cases "el_query el s")
    case (Inl e)
    then show ?thesis using Cons.prems by simp
  next
    case (Inr r)
    show ?thesis
    proof (cases "Option.bind r href")
      case None
      then have "extractProfileUrl_loop el sels = Inr (Some u)"
        using Cons.prems Inr by simp
      then show ?thesis using Cons.IH by auto
    next
      case (Some h)
      then obtain lnk where r: "r = Some lnk" and h: "href lnk = Some h"
        by (cases r) auto
      show ?thesis
      proof (cases "str_includes h ''/in/''")
        case True
        then have "u = cleanProfileUrl h"
          using Cons.prems Inr Some by simp
        then show ?thesis using True Inr r h by auto
      next
        case False
        then have "extractProfileUrl_loop el sels = Inr (Some u)"
          using Cons.prems Inr Some by simp
        then show ?thesis using Cons.IH by auto
      qed
    qed
  qed
qed

lemma extractProfileUrl_loop_no_link:
  assumes "\<forall>s \<in> set sels. \<not> yieldsLink el s"
  shows "extractProfileUrl_loop el sels = Inr None \<or> (\<exists>e. extractProfileUrl_loop el sels = Inl e)"
  using assms
proof (induction sels)
  case Nil
  show ?case by simp
next
  case (Cons s sels)
  then have "\<not> yieldsLink el s" by simp
  then show ?case
    using Cons by (auto simp: yieldsLink_def split: sum.splits option.splits)
qed

lemma extractSingleProfile_no_url:
  assumes "extractProfileUrl el = Inr None \<or> (\<exists>e. extractProfileUrl el = Inl e)"
  shows "extractSingleProfile el i = None"
proof -
  from assms consider "extractProfileUrl el = Inr None" | e where "extractProfileUrl el = Inl e"
    by blast
  then show ?thesis
    by cases (simp_all add: extractSingleProfile_def)
qed

lemma extractSingleProfile_eq:
  assumes "extractProfileUrl el = Inr (Some u)" and "u \<noteq> []"
    and "extractProfileName el i = Inr nm" and "extractProfileHeadline el = Inr hl"
  shows "extractSingleProfile el i =
     Some \<lparr>name = nm, profileUrl = u, headline = (if truthy hl then hl else None)\<rparr>"
  using assms by (simp add: extractSingleProfile_def)

lemma extractSingleProfile_Some:
  assumes "extractSingleProfile el i = Some r"
  shows "\<exists>hl. extractProfileUrl el = Inr (Some (profileUrl r)) \<and>
           extractProfileName el i = Inr (name r) \<and>
           extractProfileHeadline el = Inr hl \<and>
           headline r = (if truthy hl then hl else None)"
proof (cases "extractProfileUrl el")
  case (Inl e)
  then show ?thesis using assms by (simp add: extractSingleProfile_def)
next
  case url: (Inr x)
  show ?thesis
  proof (cases "truthy x")
    case False
    then show ?thesis using assms url by (simp add: extractSingleProfile_def)
  next
    case True
    then obtain u where x: "x = Some u" and u: "u \<noteq> []" by (cases x) simp_all
    show ?thesis
    proof (cases "extractProfileName el i")
      case (Inl e)
      then show ?thesis using assms url x u by (simp add: extractSingleProfile_def)
    next
      case nm: (Inr nm)
      show ?thesis
      proof (cases "extractProfileHeadline el")
        case (Inl e)
        then show ?thesis using assms url x u nm by (simp add: extractSingleProfile_def)
      next
        case (Inr hl)
        have "extractSingleProfile el i =
            Some \<lparr>name = nm, profileUrl = u, headline = (if truthy hl then hl else None)\<rparr>"
          using url x u nm Inr by (simp add: extractSingleProfile_eq)
        then have "r = \<lparr>name = nm, profileUrl = u, headline = (if truthy hl then hl else None)\<rparr>"
          using assms by simp
        then show ?thesis using url x nm Inr by simp
      qed
    qed
  qed
qed

lemma extractProfileName_loop_total:
  assumes "\<forall>s \<in> set sels. \<exists>r. el_query el s = Inr r"
  shows "\<exists>nm. extractProfileName_loop el i sels = Inr nm"
  using assms
proof (induction sels)
  case Nil
  show ?case by simp
next
  case (Cons s sels)
  then obtain r where "el_query el s = Inr r" by auto
  then show ?case
    using Cons by (cases r) (auto simp: Let_def)
qed

lemma extractProfileHeadline_loop_none:
  assumes "\<forall>s \<in> set sels. yieldsNoText el s"
  shows "extractProfileHeadline_loop el sels = Inr None"
  using assms
proof (induction sels)
  case Nil
  show ?case by simp
next
  case (Cons s sels)
  then have "yieldsNoText el s" by simp
  then show ?case
    using Cons by (auto simp: yieldsNoText_def blank_def Let_def split: sum.splits option.splits)
qed






lemma searchPeople_no_wall:
  assumes "has_page" and "firstLoad w = None" and "\<not> loginRequired w"
  shows "searchPeople has_page w fs =
     (Inr (fst (extractProfileLinks (Some (resultsPage w)))),
      map Console (buildSearchUrl_console fs) @
      [Navigate (buildSearchUrl fs), LoginWallCheck, Extraction] @
      map Console (snd (extractProfileLinks (Some (resultsPage w)))))"
  using assms by (simp add: searchPeople_def Let_def case_prod_beta)

lemma searchPeople_login_fails:
  assumes "has_page" and "firstLoad w = None" and "loginRequired w"
    and "\<not> fst (loginToLinkedIn has_page w)"
  shows "searchPeople has_page w fs =
     (Inl (Error ''Failed to log in to LinkedIn''),
      map Console (buildSearchUrl_console fs) @
      [Navigate (buildSearchUrl fs), LoginWallCheck] @ snd (loginToLinkedIn has_page w))"
  using assms by (simp add: searchPeople_def Let_def case_prod_beta)

lemma searchPeople_second_load_fails:
  assumes "has_page" and "firstLoad w = None" and "loginRequired w"
    and "fst (loginToLinkedIn has_page w)" and "secondLoad w = Some e"
  shows "searchPeople has_page w fs =
     (Inl e,
      map Console (buildSearchUrl_console fs) @
      [Navigate (buildSearchUrl fs), LoginWallCheck] @ snd (loginToLinkedIn has_page w) @
      [Navigate (buildSearchUrl fs)])"
  using assms by (simp add: searchPeople_def Let_def case_prod_beta)

lemma searchPeople_after_login:
  assumes "has_page" and "firstLoad w = None" and "loginRequired w"
    and "fst (loginToLinkedIn has_page w)" and "secondLoad w = None"
  shows "searchPeople has_page w fs =
     (Inr (fst (extractProfileLinks (Some (resultsPage w)))),
      map Console (buildSearchUrl_console fs) @
      [Navigate (buildSearchUrl fs), LoginWallCheck] @ snd (loginToLinkedIn has_page w) @
      [Navigate (buildSearchUrl fs), Extraction] @
      map Console (snd (extractProfileLinks (Some (resultsPage w)))))"
  using assms by (simp add: searchPeople_def Let_def case_prod_beta)


subsection \<open>The worked example, evaluated\<close>

lemmas example_defs =
  example_row_def unnamed_row_def empty_row_def example_link_def example_name_def
  example_page_def empty_page_def example_world_def refused_world_def

lemma trim_Nil: "trim [] = []"
  by code_simp

lemma trim_padded_name: "trim ''  Jane Doe '' = ''Jane Doe''"
  by code_simp

lemma trim_plain_name: "trim ''Jane Doe'' = ''Jane Doe''"
  by code_simp

lemma trim_company: "trim '' Acme '' = ''Acme''"
  by code_simp

lemma trim_title: "trim ''Engineer'' = ''Engineer''"
  by code_simp

lemma trim_school: "trim ''MIT'' = ''MIT''"
  by code_simp

lemmas trim_examples =
  trim_Nil trim_padded_name trim_plain_name trim_company trim_title trim_school

lemmas extractor_defs =
  extractSingleProfile_def extractProfileUrl_def extractProfileName_def
  extractProfileHeadline_def linkSelectors_def nameSelectors_def headlineSelectors_def
  cleanProfileUrl_def beforeQuery_def startsWith_def trim_examples Let_def

lemma example_row_profile:
  "extractSingleProfile example_row i =
     Some \<lparr>name = ''Jane Doe'', profileUrl = ''https://www.linkedin.com/in/jane-doe'',
           headline = None\<rparr>"
  by (simp add: extractor_defs example_defs)


lemma unnamed_row_profile:
  "extractSingleProfile unnamed_row i =
     Some \<lparr>name = ''Profile '' @ decimal (i + 1),
           profileUrl = ''https://www.linkedin.com/in/jane-doe'', headline = None\<rparr>"
  by (simp add: extractor_defs example_defs)

lemma decimal_digit: "n < 10 \<Longrightarrow> decimal n = [digitChar n]"
  by (simp add: decimal.simps)

lemma decimal_1: "decimal (Suc 0) = ''1''"
  by (simp add: decimal_digit digitChar_def char_of_eq_iff)


lemma example_page_rows:
  "getProfileElements (Some example_page) = Inr [example_row, empty_row, unnamed_row]"
  by (simp add: getProfileElements_def profileSelectors_def example_page_def)


lemma example_login: "loginToLinkedIn True example_world =
    (True, [LoginAttempt, Navigate loginPage, CredentialsSubmitted, CookiesSaved])"
  by (simp add: loginToLinkedIn_def example_world_def)

lemma refused_login: "loginToLinkedIn True refused_world =
    (False, [LoginAttempt, Navigate loginPage, CredentialsSubmitted])"
  by (simp add: loginToLinkedIn_def example_world_def refused_world_def)


theorem selector_chain_first_match_witness:
  "getProfileElements_loop example_page profileSelectors =
     Inr [example_row, empty_row, unnamed_row] \<and>
   getProfileElements_loop example_page profileSelectors =
     getProfileElements_loop example_page [''.entity-result''] \<and>
   extractProfileName_loop example_row 0 nameSelectors = Inr ''Jane Doe'' \<and>
   extractProfileName_loop example_row 0 nameSelectors =
     extractProfileName_loop example_row 0 [''.actor-name''] \<and>
   getProfileElements_loop rejecting_page profileSelectors = Inl (Error ''Target closed'') \<and>
   extractProfileName_loop detached_row 0 nameSelectors =
     Inl (Error ''Element is not attached to the DOM'')"
proof -
  have m1: "Suc 0 < length profileSelectors"
    by (simp add: profileSelectors_def)
  have m2: "Suc 0 < length nameSelectors"
    by (simp add: nameSelectors_def)
  have c: "(\<forall>i<Suc 0. page_queryAll rejecting_page (profileSelectors ! i) = Inr []) \<and>
      page_queryAll rejecting_page (profileSelectors ! Suc 0) = Inl (Error ''Target closed'')"
    by (simp add: profileSelectors_def rejecting_page_def)
  have d: "(\<forall>i<Suc 0. yieldsNoText detached_row (nameSelectors ! i)) \<and>
      el_query detached_row (nameSelectors ! Suc 0) =
        Inl (Error ''Element is not attached to the DOM'')"
    by (simp add: nameSelectors_def detached_row_def yieldsNoText_def blank_def)
  have n1: "Suc (Suc 0) < length profileSelectors"
    by (simp add: profileSelectors_def)
  have n2: "Suc (Suc 0) < length nameSelectors"
    by (simp add: nameSelectors_def)
  have a: "(\<forall>i<Suc (Suc 0). page_queryAll example_page (profileSelectors ! i) = Inr []) \<and>
      page_queryAll example_page (profileSelectors ! Suc (Suc 0)) =
        Inr [example_row, empty_row, unnamed_row] \<and>
      [example_row, empty_row, unnamed_row] \<noteq> []"
    by (simp add: profileSelectors_def example_page_def less_Suc_eq)
  have b: "(\<forall>i<Suc (Suc 0). yieldsNoText example_row (nameSelectors ! i)) \<and>
      el_query example_row (nameSelectors ! Suc (Suc 0)) = Inr (Some example_name) \<and>
      trim (orElse (textContent example_name) []) \<noteq> []"
    by (simp add: nameSelectors_def example_row_def example_name_def yieldsNoText_def blank_def
        less_Suc_eq trim_examples)
  have t: "trim (orElse (textContent example_name) []) = ''Jane Doe''"
    by (simp add: example_name_def trim_examples)
  have s1: "profileSelectors ! Suc (Suc 0) = ''.entity-result''"
    by (simp add: profileSelectors_def)
  have s2: "nameSelectors ! Suc (Suc 0) = ''.actor-name''"
    by (simp add: nameSelectors_def)
  note r1 = selector_chain_first_match [OF n1, THEN conjunct1, THEN mp, OF a, unfolded s1]
  note r2 = selector_chain_first_match
    [OF n2, THEN conjunct2, THEN conjunct1, THEN mp, OF b, unfolded s2 t]
  note r3 = selector_chain_first_match
    [OF m1, THEN conjunct2, THEN conjunct2, THEN conjunct1, THEN mp, OF c]
  note r4 = selector_chain_first_match
    [OF m2, THEN conjunct2, THEN conjunct2, THEN conjunct2, THEN mp, OF d]
  from r1 r2 r3 r4 show ?thesis by blast
qed

text \<open>
  The claim as the specification has it fails where a query is rejected. On this page
  the third row selector is the only one with a match, and the chain of the four
  selectors ends with the rejection of the second while the chain of the third alone
  returns the row; so the extraction returns nothing. On this row the third name
  selector is the only one with text, and the chain of the four selectors ends with the
  rejection of the second while the chain of the third alone returns the name.
\<close>

theorem rejected_query_counterexample:
  "filter (\<lambda>s. case page_queryAll rejecting_page s of Inl e \<Rightarrow> False | Inr els \<Rightarrow> els \<noteq> [])
     profileSelectors = [''.entity-result''] \<and>
   getProfileElements_loop rejecting_page profileSelectors = Inl (Error ''Target closed'') \<and>
   getProfileElements_loop rejecting_page [''.entity-result''] = Inr [example_row] \<and>
   fst (extractProfileLinks (Some rejecting_page)) = [] \<and>
   filter (\<lambda>s. case el_query detached_row s of Inl e \<Rightarrow> False | Inr r \<Rightarrow> \<not> blank r)
     nameSelectors = [''.actor-name''] \<and>
   extractProfileName_loop detached_row 0 nameSelectors =
     Inl (Error ''Element is not attached to the DOM'') \<and>
   extractProfileName_loop detached_row 0 [''.actor-name''] = Inr ''Jane Doe''"
proof -
  have rows: "getProfileElements_loop rejecting_page profileSelectors =
      Inl (Error ''Target closed'')"
    by (simp add: profileSelectors_def rejecting_page_def)
  have "fst (waitForResults rejecting_page searchSelectors)"
    by (simp add: searchSelectors_def rejecting_page_def)
  then have links: "fst (extractProfileLinks (Some rejecting_page)) = []"
    using rows by (simp add: extractProfileLinks_def getProfileElements_def case_prod_beta)
  have "filter (\<lambda>s. case page_queryAll rejecting_page s of Inl e \<Rightarrow> False | Inr els \<Rightarrow> els \<noteq> [])
      profileSelectors = [''.entity-result'']"
    by (simp add: profileSelectors_def rejecting_page_def)
  moreover have "getProfileElements_loop rejecting_page [''.entity-result''] = Inr [example_row]"
    by (simp add: rejecting_page_def)
  moreover have "filter (\<lambda>s. case el_query detached_row s of Inl e \<Rightarrow> False | Inr r \<Rightarrow> \<not> blank r)
      nameSelectors = [''.actor-name'']"
    by (simp add: nameSelectors_def detached_row_def blank_def example_name_def trim_examples)
  moreover have "extractProfileName_loop detached_row 0 nameSelectors =
      Inl (Error ''Element is not attached to the DOM'')"
    by (simp add: nameSelectors_def detached_row_def)
  moreover have "extractProfileName_loop detached_row 0 [''.actor-name''] = Inr ''Jane Doe''"
    by (simp add: detached_row_def example_name_def trim_examples)
  ultimately show ?thesis
    using rows links by simp
qed

lemma extractSingleProfile_rejected:
  assumes "(\<exists>e. extractProfileName el i = Inl e) \<or> (\<exists>e. extractProfileHeadline el = Inl e)"
  shows "extractSingleProfile el i = None"
proof (cases "extractProfileUrl el")
  case (Inl e)
  then show ?thesis by (simp add: extractSingleProfile_def)
next
  case (Inr url)
  show ?thesis
  proof (cases "extractProfileName el i")
    case (Inl e)
    then show ?thesis using Inr by (simp add: extractSingleProfile_def)
  next
    case nm: (Inr nm)
    then obtain e where "extractProfileHeadline el = Inl e" using assms by auto
    then show ?thesis using Inr nm by (simp add: extractSingleProfile_def)
  qed
qed

lemma extractProfileLinks_rows:
  assumes "getProfileElements (Some pg) = Inr (el # rest)"
    and "fst (waitForResults pg searchSelectors) \<or> (\<exists>t. page_title pg = Inr t)"
  shows "fst (extractProfileLinks (Some pg)) = collectProfiles (el # rest) 0"
proof (cases "fst (waitForResults pg searchSelectors)")
  case True
  then show ?thesis
    using assms(1) by (simp add: extractProfileLinks_def Let_def case_prod_beta)
next
  case False
  then obtain t where "page_title pg = Inr t" using assms(2) by auto
  then show ?thesis
    using assms(1) False by (simp add: extractProfileLinks_def Let_def case_prod_beta)
qed

text \<open>
  C5, as the code has it. For every result row: when no link selector yields a link
  whose address contains \<open>/in/\<close>, the record extractor returns the skip and the row
  adds nothing to the output of the loop over the rows. A record that it does return has
  the cleaned address of such a link as its URL, which is never empty. When the URL is
  found, every name query resolves and every headline selector yields no text, the
  record, with the name that the name chain returns and its headline absent, is the next
  record in the output of the loop. When the name chain or the headline chain ends with
  a rejected query, the row is skipped and adds nothing to the output, also when its URL
  was found. The output of the loop over the rows is the output of the extraction, when
  rows are found and either a container was found or the title of the page is read.
\<close>

theorem row_without_link_skipped:
  "((\<forall>s \<in> set linkSelectors. \<not> yieldsLink el s) \<longrightarrow>
      extractSingleProfile el i = None \<and>
      collectProfiles (el # rest) i = collectProfiles rest (i + 1)) \<and>
   (extractSingleProfile el i = Some r \<longrightarrow>
      profileUrl r \<noteq> [] \<and>
      (\<exists>s \<in> set linkSelectors. \<exists>lnk h.
         el_query el s = Inr (Some lnk) \<and> href lnk = Some h \<and> str_includes h ''/in/'' \<and>
         profileUrl r = cleanProfileUrl h)) \<and>
   (extractProfileUrl el = Inr (Some u) \<and>
    (\<forall>s \<in> set nameSelectors. \<exists>x. el_query el s = Inr x) \<and>
    (\<forall>s \<in> set headlineSelectors. yieldsNoText el s) \<longrightarrow>
      (\<exists>nm. extractProfileName el i = Inr nm \<and>
         extractSingleProfile el i = Some \<lparr>name = nm, profileUrl = u, headline = None\<rparr> \<and>
         collectProfiles (el # rest) i =
           \<lparr>name = nm, profileUrl = u, headline = None\<rparr> # collectProfiles rest (i + 1))) \<and>
   (extractProfileUrl el = Inr (Some u) \<and>
    ((\<exists>e. extractProfileName el i = Inl e) \<or> (\<exists>e. extractProfileHeadline el = Inl e)) \<longrightarrow>
      extractSingleProfile el i = None \<and>
      collectProfiles (el # rest) i = collectProfiles rest (i + 1)) \<and>
   (getProfileElements (Some pg) = Inr (el # rest) \<and>
    (fst (waitForResults pg searchSelectors) \<or> (\<exists>t. page_title pg = Inr t)) \<longrightarrow>
      fst (extractProfileLinks (Some pg)) = collectProfiles (el # rest) 0)"
proof (intro conjI impI)
  assume "\<forall>s \<in> set linkSelectors. \<not> yieldsLink el s"
  then have "extractProfileUrl el = Inr None \<or> (\<exists>e. extractProfileUrl el = Inl e)"
    unfolding extractProfileUrl_def by (rule extractProfileUrl_loop_no_link)
  then show none: "extractSingleProfile el i = None"
    by (rule extractSingleProfile_no_url)
  show "collectProfiles (el # rest) i = collectProfiles rest (i + 1)"
    by (simp add: none)
next
  assume some: "extractSingleProfile el i = Some r"
  then have url: "extractProfileUrl_loop el linkSelectors = Inr (Some (profileUrl r))"
    using extractSingleProfile_Some [OF some] by (auto simp: extractProfileUrl_def)
  from extractProfileUrl_loop_Some [OF url]
  show link: "\<exists>s \<in> set linkSelectors. \<exists>lnk h.
      el_query el s = Inr (Some lnk) \<and> href lnk = Some h \<and> str_includes h ''/in/'' \<and>
      profileUrl r = cleanProfileUrl h" .
  then obtain h where "profileUrl r = cleanProfileUrl h" by blast
  then show "profileUrl r \<noteq> []"
    by (simp add: cleanProfileUrl_nonempty)
next
  assume a: "extractProfileUrl el = Inr (Some u) \<and>
    (\<forall>s \<in> set nameSelectors. \<exists>x. el_query el s = Inr x) \<and>
    (\<forall>s \<in> set headlineSelectors. yieldsNoText el s)"
  then have "extractProfileUrl_loop el linkSelectors = Inr (Some u)"
    by (simp add: extractProfileUrl_def)
  from extractProfileUrl_loop_Some [OF this]
  obtain h where "u = cleanProfileUrl h" by blast
  then have u: "u \<noteq> []"
    by (simp add: cleanProfileUrl_nonempty)
  obtain nm where nm: "extractProfileName el i = Inr nm"
    using a extractProfileName_loop_total [of nameSelectors el i]
    by (auto simp: extractProfileName_def)
  have hl: "extractProfileHeadline el = Inr None"
    using a extractProfileHeadline_loop_none [of headlineSelectors el]
    by (simp add: extractProfileHeadline_def)
  have rec: "extractSingleProfile el i = Some \<lparr>name = nm, profileUrl = u, headline = None\<rparr>"
    using extractSingleProfile_eq [of el u i nm None] a u nm hl by simp
  then have "collectProfiles (el # rest) i =
      \<lparr>name = nm, profileUrl = u, headline = None\<rparr> # collectProfiles rest (i + 1)"
    by simp
  then show "\<exists>nm. extractProfileName el i = Inr nm \<and>
      extractSingleProfile el i = Some \<lparr>name = nm, profileUrl = u, headline = None\<rparr> \<and>
      collectProfiles (el # rest) i =
        \<lparr>name = nm, profileUrl = u, headline = None\<rparr> # collectProfiles rest (i + 1)"
    using nm rec by blast
next
  assume "extractProfileUrl el = Inr (Some u) \<and>
    ((\<exists>e. extractProfileName el i = Inl e) \<or> (\<exists>e. extractProfileHeadline el = Inl e))"
  then have "(\<exists>e. extractProfileName el i = Inl e) \<or> (\<exists>e. extractProfileHeadline el = Inl e)"
    by simp
  then show none: "extractSingleProfile el i = None"
    by (rule extractSingleProfile_rejected)
  show "collectProfiles (el # rest) i = collectProfiles rest (i + 1)"
    by (simp add: none)
next
  assume "getProfileElements (Some pg) = Inr (el # rest) \<and>
    (fst (waitForResults pg searchSelectors) \<or> (\<exists>t. page_title pg = Inr t))"
  then show "fst (extractProfileLinks (Some pg)) = collectProfiles (el # rest) 0"
    using extractProfileLinks_rows [of pg el rest] by blast
qed

theorem row_without_link_skipped_witness:
  "extractSingleProfile empty_row 0 = None \<and>
   collectProfiles [empty_row, example_row] 0 = collectProfiles [example_row] 1 \<and>
   profileUrl \<lparr>name = ''Jane Doe'', profileUrl = ''https://www.linkedin.com/in/jane-doe'',
     headline = None\<rparr> \<noteq> [] \<and>
   (\<exists>nm. extractProfileName example_row 0 = Inr nm \<and>
      extractSingleProfile example_row 0 =
        Some \<lparr>name = nm, profileUrl = ''https://www.linkedin.com/in/jane-doe'',
          headline = None\<rparr> \<and>
      collectProfiles [example_row] 0 =
        [\<lparr>name = nm, profileUrl = ''https://www.linkedin.com/in/jane-doe'',
          headline = None\<rparr>]) \<and>
   extractSingleProfile rejecting_row 0 = None \<and>
   collectProfiles [rejecting_row] 0 = [] \<and>
   fst (extractProfileLinks (Some example_page)) =
     collectProfiles [example_row, empty_row, unnamed_row] 0"
proof -
  have a: "\<forall>s \<in> set linkSelectors. \<not> yieldsLink empty_row s"
    by (simp add: yieldsLink_def empty_row_def)
  have b: "extractSingleProfile example_row 0 =
      Some \<lparr>name = ''Jane Doe'', profileUrl = ''https://www.linkedin.com/in/jane-doe'',
        headline = None\<rparr>"
    by (rule example_row_profile)
  have c: "extractProfileUrl example_row = Inr (Some ''https://www.linkedin.com/in/jane-doe'') \<and>
      (\<forall>s \<in> set nameSelectors. \<exists>x. el_query example_row s = Inr x) \<and>
      (\<forall>s \<in> set headlineSelectors. yieldsNoText example_row s)"
    by (simp add: extractor_defs example_defs yieldsNoText_def blank_def)
  have d: "extractProfileUrl rejecting_row = Inr (Some ''https://www.linkedin.com/in/jane-doe'') \<and>
      ((\<exists>e. extractProfileName rejecting_row 0 = Inl e) \<or>
       (\<exists>e. extractProfileHeadline rejecting_row = Inl e))"
    by (simp add: extractor_defs example_defs rejecting_row_def)
  have "fst (waitForResults example_page searchSelectors)"
    by (simp add: searchSelectors_def example_page_def)
  then have e: "getProfileElements (Some example_page) = Inr (example_row # [empty_row, unnamed_row]) \<and>
      (fst (waitForResults example_page searchSelectors) \<or>
       (\<exists>t. page_title example_page = Inr t))"
    by (simp add: example_page_rows)
  note r1 = row_without_link_skipped
    [where el = empty_row and i = 0 and rest = "[example_row]",
     THEN conjunct1, THEN mp, OF a]
  note r2 = row_without_link_skipped
    [where el = example_row and i = 0, THEN conjunct2, THEN conjunct1, THEN mp, OF b]
  note r3 = row_without_link_skipped
    [where el = example_row and i = 0 and rest = "[]",
     THEN conjunct2, THEN conjunct2, THEN conjunct1, THEN mp, OF c]
  note r4 = row_without_link_skipped
    [where el = rejecting_row and i = 0 and rest = "[]",
     THEN conjunct2, THEN conjunct2, THEN conjunct2, THEN conjunct1, THEN mp, OF d]
  note r5 = row_without_link_skipped
    [where el = example_row and rest = "[empty_row, unnamed_row]" and pg = example_page,
     THEN conjunct2, THEN conjunct2, THEN conjunct2, THEN conjunct2, THEN mp, OF e]
  from r1 r2 r3 r4 r5 show ?thesis by simp
qed

text \<open>
  The claim as the specification has it fails on a row whose link is found and whose
  headline is not read because the query of a headline selector is rejected: the
  extractor catches the rejection and returns the skip, so the row is not kept and the
  output of the loop is empty.
\<close>

theorem rejected_headline_counterexample:
  "extractProfileUrl rejecting_row = Inr (Some ''https://www.linkedin.com/in/jane-doe'') \<and>
   extractProfileName rejecting_row 0 = Inr ''Profile 1'' \<and>
   extractProfileHeadline rejecting_row = Inl (Error ''Element is not attached to the DOM'') \<and>
   extractSingleProfile rejecting_row 0 = None \<and>
   collectProfiles [rejecting_row] 0 = []"
  by (simp add: extractor_defs example_defs rejecting_row_def decimal_1)



section \<open>Properties of the search operation\<close>

subsection \<open>The login wall\<close>

lemma login_outcomes:
  "loginToLinkedIn True w = (False, [LoginAttempt, Navigate loginPage]) \<or>
   loginToLinkedIn True w = (True, [LoginAttempt, Navigate loginPage]) \<or>
   loginToLinkedIn True w = (False, [LoginAttempt, Navigate loginPage, CredentialsSubmitted]) \<or>
   loginToLinkedIn True w =
     (True, [LoginAttempt, Navigate loginPage, CredentialsSubmitted, CookiesSaved])"
  by (simp add: loginToLinkedIn_def split: option.splits)

lemma searchUrl_not_loginPage: "buildSearchUrl fs \<noteq> loginPage"
  by (simp add: buildSearchUrl_def baseUrl_def loginPage_def)

lemma login_trace_facts:
  "count_list (snd (loginToLinkedIn True w)) LoginAttempt = 1 \<and>
   count_list (snd (loginToLinkedIn True w)) (Navigate (buildSearchUrl fs)) = 0 \<and>
   count_list (snd (loginToLinkedIn True w)) Extraction = 0"
  using login_outcomes [of w] searchUrl_not_loginPage [of fs] by auto

lemma count_list_Console_simps:
  "count_list (map Console xs) LoginAttempt = 0"
  "count_list (map Console xs) (Navigate u) = 0"
  "count_list (map Console xs) Extraction = 0"
  by (induction xs) simp_all

lemma count_list_zero_iff: "count_list xs x = 0 \<longleftrightarrow> x \<notin> set xs"
  by (induction xs) auto

text \<open>
  C2. For every search in which the first navigation resolves and the login form is
  visible after it: the trace holds exactly one login attempt. When that attempt
  succeeds, the trace is the first navigation, the check, the login, one navigation to
  the same search URL and then, when this navigation resolves, the extraction: the
  search URL is navigated to exactly twice, never during the login, and the extraction
  stands after the second. When the attempt fails, the operation throws the login
  error, with that one attempt, one navigation and no extraction.
\<close>

theorem login_wall_single_relogin:
  assumes "has_page" and "firstLoad w = None" and "loginRequired w"
  shows "count_list (snd (searchPeople has_page w fs)) LoginAttempt = 1 \<and>
    (fst (loginToLinkedIn has_page w) \<longrightarrow>
       snd (searchPeople has_page w fs) =
         map Console (buildSearchUrl_console fs) @
         [Navigate (buildSearchUrl fs), LoginWallCheck] @
         snd (loginToLinkedIn has_page w) @
         Navigate (buildSearchUrl fs) #
         (if secondLoad w = None
          then Extraction # map Console (snd (extractProfileLinks (Some (resultsPage w))))
          else []) \<and>
       Navigate (buildSearchUrl fs) \<notin> set (snd (loginToLinkedIn has_page w)) \<and>
       Extraction \<notin> set (snd (loginToLinkedIn has_page w)) \<and>
       count_list (snd (searchPeople has_page w fs)) (Navigate (buildSearchUrl fs)) = 2 \<and>
       count_list (snd (searchPeople has_page w fs)) Extraction =
         (if secondLoad w = None then 1 else 0) \<and>
       (secondLoad w = None \<longrightarrow>
          fst (searchPeople has_page w fs) =
            Inr (fst (extractProfileLinks (Some (resultsPage w)))))) \<and>
    (\<not> fst (loginToLinkedIn has_page w) \<longrightarrow>
       fst (searchPeople has_page w fs) = Inl (Error ''Failed to log in to LinkedIn'') \<and>
       count_list (snd (searchPeople has_page w fs)) (Navigate (buildSearchUrl fs)) = 1 \<and>
       Extraction \<notin> set (snd (searchPeople has_page w fs)))"
proof -
  have hp: "has_page = True" using assms(1) by simp
  note lf = login_trace_facts [of w fs]
  note cs = count_list_Console_simps
  show ?thesis
  proof (cases "fst (loginToLinkedIn True w)")
    case False
    have eq: "searchPeople True w fs =
        (Inl (Error ''Failed to log in to LinkedIn''),
         map Console (buildSearchUrl_console fs) @
         [Navigate (buildSearchUrl fs), LoginWallCheck] @ snd (loginToLinkedIn True w))"
      using assms False by (intro searchPeople_login_fails) simp_all
    have "count_list (snd (loginToLinkedIn True w)) Extraction = 0" using lf by simp
    then have no_ex: "Extraction \<notin> set (snd (loginToLinkedIn True w))"
      by (simp add: count_list_zero_iff)
    have c1: "count_list (snd (searchPeople True w fs)) LoginAttempt = 1"
      using lf by (simp add: eq cs)
    have c2: "count_list (snd (searchPeople True w fs)) (Navigate (buildSearchUrl fs)) = 1"
      using lf by (simp add: eq cs)
    have c3: "Extraction \<notin> set (snd (searchPeople True w fs))"
      using no_ex by (auto simp: eq)
    have c4: "fst (searchPeople True w fs) = Inl (Error ''Failed to log in to LinkedIn'')"
      by (simp add: eq)
    show ?thesis
      unfolding hp using False c1 c2 c3 c4 by blast
  next
    case ok: True
    have no_nav: "Navigate (buildSearchUrl fs) \<notin> set (snd (loginToLinkedIn True w))"
      using lf by (simp only: count_list_zero_iff [symmetric])
    have no_ex: "Extraction \<notin> set (snd (loginToLinkedIn True w))"
      using lf by (simp only: count_list_zero_iff [symmetric])
    show ?thesis
    proof (cases "secondLoad w")
      case None
      have eq: "searchPeople True w fs =
          (Inr (fst (extractProfileLinks (Some (resultsPage w)))),
           map Console (buildSearchUrl_console fs) @
           [Navigate (buildSearchUrl fs), LoginWallCheck] @ snd (loginToLinkedIn True w) @
           [Navigate (buildSearchUrl fs), Extraction] @
           map Console (snd (extractProfileLinks (Some (resultsPage w)))))"
        using assms ok None by (intro searchPeople_after_login) simp_all
      show ?thesis
        using ok None lf no_nav no_ex by (simp add: hp eq cs)
    next
      case (Some e)
      have eq: "searchPeople True w fs =
          (Inl e,
           map Console (buildSearchUrl_console fs) @
           [Navigate (buildSearchUrl fs), LoginWallCheck] @ snd (loginToLinkedIn True w) @
           [Navigate (buildSearchUrl fs)])"
        using assms ok Some by (intro searchPeople_second_load_fails) simp_all
      show ?thesis
        using ok Some lf no_nav no_ex by (simp add: hp eq cs)
    qed
  qed
qed

theorem login_wall_single_relogin_witness:
  "count_list (snd (searchPeople True example_world
      \<lparr>keywords' = Some ''AI'', location = None, network = None\<rparr>)) LoginAttempt = 1 \<and>
   count_list (snd (searchPeople True example_world
      \<lparr>keywords' = Some ''AI'', location = None, network = None\<rparr>))
      (Navigate (buildSearchUrl \<lparr>keywords' = Some ''AI'', location = None, network = None\<rparr>)) = 2 \<and>
   count_list (snd (searchPeople True example_world
      \<lparr>keywords' = Some ''AI'', location = None, network = None\<rparr>)) Extraction = 1 \<and>
   count_list (snd (searchPeople True refused_world
      \<lparr>keywords' = Some ''AI'', location = None, network = None\<rparr>)) LoginAttempt = 1 \<and>
   fst (searchPeople True refused_world
      \<lparr>keywords' = Some ''AI'', location = None, network = None\<rparr>) =
     Inl (Error ''Failed to log in to LinkedIn'') \<and>
   Extraction \<notin> set (snd (searchPeople True refused_world
      \<lparr>keywords' = Some ''AI'', location = None, network = None\<rparr>))"
proof -
  let ?fs = "\<lparr>keywords' = Some ''AI'', location = None, network = None\<rparr>"
  have a: "True" "firstLoad example_world = None" "loginRequired example_world"
    by (simp_all add: example_world_def)
  have b: "True" "firstLoad refused_world = None" "loginRequired refused_world"
    by (simp_all add: example_world_def refused_world_def)
  have c: "secondLoad example_world = None"
    by (simp add: example_world_def)
  note r1 = login_wall_single_relogin [OF a, of ?fs, unfolded example_login fst_conv c]
  note r2 = login_wall_single_relogin [OF b, of ?fs, unfolded refused_login fst_conv]
  from r1 r2 show ?thesis by (simp (no_asm_use) only: simp_thms if_True) blast
qed

subsection \<open>A results area without rows\<close>

lemma getProfileElements_loop_empty:
  assumes "\<forall>s \<in> set sels. page_queryAll pg s = Inr []"
  shows "getProfileElements_loop pg sels = Inr []"
  using assms by (induction sels) simp_all

lemma extractProfileLinks_no_rows:
  assumes "\<forall>s \<in> set profileSelectors. page_queryAll pg s = Inr []"
    and "fst (waitForResults pg searchSelectors)"
  shows "extractProfileLinks (Some pg) =
     ([], snd (waitForResults pg searchSelectors) @ [NoProfileElements])"
proof -
  have "getProfileElements (Some pg) = Inr []"
    using assms(1) by (simp add: getProfileElements_def getProfileElements_loop_empty)
  then show ?thesis
    using assms(2) by (simp add: extractProfileLinks_def Let_def case_prod_beta)
qed

lemma waitForResults_found:
  "fst (waitForResults pg sels) \<longleftrightarrow> (\<exists>s \<in> set sels. page_wait pg s = None)"
  by (induction sels) (auto simp: case_prod_beta split: option.splits)

lemma callTool_search:
  assumes "fst (initializeScraper sc st) = Inr has_page"
    and "fst (searchPeople has_page w (argumentFilters arguments)) = Inr ps"
  shows "callTool sc st w ''search-linkedin-people'' arguments =
     Inr \<lparr>success = True, count = length ps, profiles = ps,
          filters' = argumentFilters arguments\<rparr>"
  using assms by (simp add: callTool_def)

text \<open>
  C6. For every search call that reaches the results page (the scraper has its page, the
  first navigation resolves, and either no login form is visible or the login succeeds
  and the second navigation resolves): when a container selector resolves and no row
  selector yields an element, the extraction returns the empty list, after writing that
  no profile element was found, and the handler answers with the structured result of
  count zero and no profiles. It does not answer with an error.
\<close>

theorem empty_results_not_an_error:
  assumes "fst (initializeScraper sc st) = Inr True"
    and "firstLoad w = None"
    and "\<not> loginRequired w \<or> fst (loginToLinkedIn True w) \<and> secondLoad w = None"
    and "\<exists>s \<in> set searchSelectors. page_wait (resultsPage w) s = None"
    and "\<forall>s \<in> set profileSelectors. page_queryAll (resultsPage w) s = Inr []"
  shows "extractProfileLinks (Some (resultsPage w)) =
           ([], snd (waitForResults (resultsPage w) searchSelectors) @ [NoProfileElements]) \<and>
         fst (searchPeople True w (argumentFilters arguments)) = Inr [] \<and>
         callTool sc st w ''search-linkedin-people'' arguments =
           Inr \<lparr>success = True, count = 0, profiles = [],
                filters' = argumentFilters arguments\<rparr>"
proof -
  let ?fs = "argumentFilters arguments"
  have found: "fst (waitForResults (resultsPage w) searchSelectors)"
    using assms(4) by (simp only: waitForResults_found)
  have links: "extractProfileLinks (Some (resultsPage w)) =
      ([], snd (waitForResults (resultsPage w) searchSelectors) @ [NoProfileElements])"
    using assms(5) found by (rule extractProfileLinks_no_rows)
  have search: "fst (searchPeople True w ?fs) = Inr []"
  proof (cases "loginRequired w")
    case False
    then show ?thesis
      using assms(2) links by (simp add: searchPeople_no_wall)
  next
    case True
    then have "fst (loginToLinkedIn True w)" and "secondLoad w = None"
      using assms(3) by simp_all
    then show ?thesis
      using assms(2) True links by (simp add: searchPeople_after_login)
  qed
  have "callTool sc st w ''search-linkedin-people'' arguments =
      Inr \<lparr>success = True, count = length ([] :: LinkedInProfileLink list), profiles = [],
           filters' = ?fs\<rparr>"
    using assms(1) search by (rule callTool_search)
  then show ?thesis
    using links search by simp
qed

lemma empty_page_world:
  "firstLoad (example_world\<lparr>resultsPage := empty_page\<rparr>) = None"
  "fst (loginToLinkedIn True (example_world\<lparr>resultsPage := empty_page\<rparr>))"
  "secondLoad (example_world\<lparr>resultsPage := empty_page\<rparr>) = None"
  "resultsPage (example_world\<lparr>resultsPage := empty_page\<rparr>) = empty_page"
  by (simp_all add: example_world_def loginToLinkedIn_def)

theorem empty_results_not_an_error_witness:
  "extractProfileLinks (Some empty_page) =
     ([], [ContainerFound ''.search-results-container'', NoProfileElements]) \<and>
   callTool NotCreated \<lparr>configLoad = None, browserLaunch = None, setHeaders = None\<rparr>
       (example_world\<lparr>resultsPage := empty_page\<rparr>) ''search-linkedin-people''
       (Some [''keywords'' \<mapsto> ''AI'']) =
     Inr \<lparr>success = True, count = 0, profiles = [],
          filters' = \<lparr>keywords' = Some ''AI'', location = None, network = None\<rparr>\<rparr>"
proof -
  let ?w = "example_world\<lparr>resultsPage := empty_page\<rparr>"
  have a: "fst (initializeScraper NotCreated
      \<lparr>configLoad = None, browserLaunch = None, setHeaders = None\<rparr>) = Inr True"
    by (simp add: initializeScraper_def)
  have c: "\<not> loginRequired ?w \<or> fst (loginToLinkedIn True ?w) \<and> secondLoad ?w = None"
    by (simp add: empty_page_world)
  have d: "\<exists>s \<in> set searchSelectors. page_wait (resultsPage ?w) s = None"
    by (auto simp: empty_page_world empty_page_def searchSelectors_def)
  have e: "\<forall>s \<in> set profileSelectors. page_queryAll (resultsPage ?w) s = Inr []"
    by (simp add: empty_page_world empty_page_def)
  have f: "snd (waitForResults empty_page searchSelectors) =
      [ContainerFound ''.search-results-container'']"
    by (simp add: searchSelectors_def empty_page_def)
  note r = empty_results_not_an_error
    [OF a empty_page_world(1) c d e, of "Some [''keywords'' \<mapsto> ''AI'']",
     unfolded empty_page_world(4) f]
  from r show ?thesis by (simp add: argumentFilters_def)
qed

section \<open>Properties of the full profile\<close>

lemma pageText_loop_none:
  assumes "\<forall>s \<in> set sels. pageYieldsNoText pg s"
  shows "pageText_loop pg sels = None"
  using assms
proof (induction sels)
  case Nil
  show ?case by simp
next
  case (Cons s sels)
  then have "pageYieldsNoText pg s" by simp
  then show ?case
    using Cons
    by (auto simp: pageYieldsNoText_def blank_def split: sum.splits option.splits)
qed

lemma aboutText_loop_none:
  assumes "\<forall>s \<in> set sels. pageYieldsNoText pg s"
  shows "aboutText_loop pg sels = Inr None \<or> (\<exists>e. aboutText_loop pg sels = Inl e)"
  using assms
proof (induction sels)
  case Nil
  show ?case by simp
next
  case (Cons s sels)
  then have "pageYieldsNoText pg s" by simp
  then show ?case
    using Cons
    by (auto simp: pageYieldsNoText_def blank_def split: sum.splits option.splits)
qed

lemma extractProfileAbout_none:
  assumes "\<forall>s \<in> set aboutSelectors. pageYieldsNoText pg s"
  shows "extractProfileAbout (Some pg) = None"
proof (cases "page_query pg aboutExpandButton")
  case (Inl e)
  then show ?thesis by (simp add: extractProfileAbout_def)
next
  case (Inr b)
  from aboutText_loop_none [OF assms]
  consider "aboutText_loop pg aboutSelectors = Inr None"
    | e where "aboutText_loop pg aboutSelectors = Inl e" by blast
  then show ?thesis
    using Inr by cases (simp_all add: extractProfileAbout_def)
qed

lemma entryText_loop_none:
  assumes "\<forall>s \<in> set sels. yieldsNoText el s"
  shows "entryText_loop el sels = Inr None"
  using assms
proof (induction sels)
  case Nil
  show ?case by simp
next
  case (Cons s sels)
  then have "yieldsNoText el s" by simp
  then show ?case
    using Cons
    by (auto simp: yieldsNoText_def blank_def split: sum.splits option.splits)
qed

lemma entryText_loop_truthy:
  assumes "entryText_loop el sels = Inr (Some t)"
  shows "t \<noteq> []"
  using assms
  by (induction sels) (auto split: sum.splits option.splits if_splits)

lemma extractExperience_Some:
  assumes "extractExperience e = Some x"
  shows "\<exists>t c d ds.
           entryText_loop e titleSelectors = Inr t \<and>
           entryText_loop e companySelectors = Inr c \<and>
           entryText_loop e durationSelectors = Inr d \<and>
           entryText_loop e descSelectors = Inr ds \<and>
           (truthy t \<or> truthy c) \<and>
           x = \<lparr>title = orElse t ''Unknown Title'', company = orElse c ''Unknown Company'',
                duration = orElse d ''Unknown Duration'', description = ds\<rparr>"
proof -
  obtain t where t: "entryText_loop e titleSelectors = Inr t"
    using assms by (cases "entryText_loop e titleSelectors") (simp_all add: extractExperience_def)
  obtain c where c: "entryText_loop e companySelectors = Inr c"
    using assms t
    by (cases "entryText_loop e companySelectors") (simp_all add: extractExperience_def)
  obtain d where d: "entryText_loop e durationSelectors = Inr d"
    using assms t c
    by (cases "entryText_loop e durationSelectors") (simp_all add: extractExperience_def)
  obtain ds where ds: "entryText_loop e descSelectors = Inr ds"
    using assms t c d
    by (cases "entryText_loop e descSelectors") (simp_all add: extractExperience_def)
  have "truthy t \<or> truthy c"
    using assms t c d ds by (cases "truthy t \<or> truthy c") (simp_all add: extractExperience_def)
  moreover from this have "x = \<lparr>title = orElse t ''Unknown Title'',
      company = orElse c ''Unknown Company'', duration = orElse d ''Unknown Duration'',
      description = ds\<rparr>"
    using assms t c d ds by (auto simp: extractExperience_def)
  ultimately show ?thesis using t c d ds by blast
qed

lemma extractEducation_Some:
  assumes "extractEducation e = Some y"
  shows "\<exists>s dg ys.
           entryText_loop e schoolSelectors = Inr (Some s) \<and>
           entryText_loop e degreeSelectors = Inr dg \<and>
           entryText_loop e yearsSelectors = Inr ys \<and>
           y = \<lparr>school = s, degree = dg, years = ys\<rparr>"
proof -
  obtain s where s: "entryText_loop e schoolSelectors = Inr s"
    using assms by (cases "entryText_loop e schoolSelectors") (simp_all add: extractEducation_def)
  obtain dg where dg: "entryText_loop e degreeSelectors = Inr dg"
    using assms s
    by (cases "entryText_loop e degreeSelectors") (simp_all add: extractEducation_def)
  obtain ys where ys: "entryText_loop e yearsSelectors = Inr ys"
    using assms s dg
    by (cases "entryText_loop e yearsSelectors") (simp_all add: extractEducation_def)
  have tr: "truthy s"
    using assms s dg ys by (cases "truthy s") (simp_all add: extractEducation_def)
  then obtain s' where s': "s = Some s'" by (cases s) simp_all
  have "y = \<lparr>school = s', degree = dg, years = ys\<rparr>"
    using assms s dg ys tr s' by (simp add: extractEducation_def)
  then show ?thesis using s s' dg ys by blast
qed

lemma collectExperiences_mem:
  assumes "x \<in> set (collectExperiences els)"
  shows "\<exists>e \<in> set els. extractExperience e = Some x"
  using assms
proof (induction els)
  case Nil
  then show ?case by simp
next
  case (Cons el els)
  then show ?case
    by (cases "extractExperience el") auto
qed

lemma experience_loop_mem:
  assumes "experience_loop pg sels = Inr xs" and "x \<in> set xs"
  shows "\<exists>e. extractExperience e = Some x"
  using assms
proof (induction sels)
  case Nil
  then show ?case by simp
next
  case (Cons s sels)
  show ?case
  proof (cases "page_queryAll pg s")
    case (Inl e)
    then show ?thesis using Cons.prems by simp
  next
    case (Inr els)
    show ?thesis
    proof (cases "els = []")
      case True
      then show ?thesis using Cons Inr by simp
    next
      case False
      then have "xs = collectExperiences els" using Cons.prems Inr by simp
      then show ?thesis using Cons.prems collectExperiences_mem by blast
    qed
  qed
qed

lemma extractProfileExperience_mem:
  assumes "x \<in> set (extractProfileExperience this_page)"
  shows "\<exists>e. extractExperience e = Some x"
proof (cases this_page)
  case None
  then show ?thesis using assms by (simp add: extractProfileExperience_def)
next
  case (Some pg)
  show ?thesis
  proof (cases "page_query pg expExpandButton")
    case (Inl e)
    then show ?thesis using assms Some by (simp add: extractProfileExperience_def)
  next
    case b: (Inr b)
    show ?thesis
    proof (cases "experience_loop pg experienceSelectors")
      case (Inl e)
      then show ?thesis using assms Some b by (simp add: extractProfileExperience_def)
    next
      case (Inr xs)
      then have "x \<in> set xs" using assms Some b by (simp add: extractProfileExperience_def)
      then show ?thesis using Inr experience_loop_mem by blast
    qed
  qed
qed

lemma extractProfileName_loop_fallback:
  assumes "\<forall>s \<in> set sels. yieldsNoText el s"
  shows "extractProfileName_loop el i sels = Inr (''Profile '' @ decimal (i + 1))"
  using extractProfileName_loop_skip [OF assms, of i "[]"] by simp

text \<open>
  C8, as the code has it. In every extracted record an optional field whose selectors
  all fail is absent: the headline of a search record, and the headline, the location
  and the about text of a full profile, and the description of an experience entry and
  the degree and the years of an education entry. The name of a full profile whose name
  selectors all fail is the sentinel \<open>Unknown\<close>. An experience entry is kept only when its
  title or its company was read, and then the title, the company and the duration that
  were not read are \<open>Unknown Title\<close>, \<open>Unknown Company\<close> and \<open>Unknown Duration\<close>; every
  entry of the experience list of a profile is such an entry. An education entry is kept
  only with the school that was read. A search record whose name selectors all fail has
  the label \<open>Profile\<close> followed by the number of its row, counted from one, as its name.
\<close>

theorem failed_fields_absent:
  "(extractSingleProfile el i = Some r \<longrightarrow>
      ((\<forall>s \<in> set headlineSelectors. yieldsNoText el s) \<longrightarrow> headline r = None) \<and>
      ((\<forall>s \<in> set nameSelectors. yieldsNoText el s) \<longrightarrow>
         name r = ''Profile '' @ decimal (i + 1))) \<and>
   (extractProfileData (Some pg) url = Inr p \<longrightarrow>
      profile_url p = url \<and>
      ((\<forall>s \<in> set pageNameSelectors. pageYieldsNoText pg s) \<longrightarrow> profile_name p = ''Unknown'') \<and>
      ((\<forall>s \<in> set pageHeadlineSelectors. pageYieldsNoText pg s) \<longrightarrow> profile_headline p = None) \<and>
      ((\<forall>s \<in> set locationSelectors. pageYieldsNoText pg s) \<longrightarrow> profile_location p = None) \<and>
      ((\<forall>s \<in> set aboutSelectors. pageYieldsNoText pg s) \<longrightarrow> profile_about p = None) \<and>
      (\<forall>xs x. experience p = Some xs \<and> x \<in> set xs \<longrightarrow> (\<exists>e. extractExperience e = Some x))) \<and>
   (extractExperience e = Some x \<longrightarrow>
      \<not> ((\<forall>s \<in> set titleSelectors. yieldsNoText e s) \<and>
         (\<forall>s \<in> set companySelectors. yieldsNoText e s)) \<and>
      ((\<forall>s \<in> set titleSelectors. yieldsNoText e s) \<longrightarrow> title x = ''Unknown Title'') \<and>
      ((\<forall>s \<in> set companySelectors. yieldsNoText e s) \<longrightarrow> company x = ''Unknown Company'') \<and>
      ((\<forall>s \<in> set durationSelectors. yieldsNoText e s) \<longrightarrow> duration x = ''Unknown Duration'') \<and>
      ((\<forall>s \<in> set descSelectors. yieldsNoText e s) \<longrightarrow> description x = None)) \<and>
   (extractEducation e = Some y \<longrightarrow>
      school y \<noteq> [] \<and>
      ((\<forall>s \<in> set degreeSelectors. yieldsNoText e s) \<longrightarrow> degree y = None) \<and>
      ((\<forall>s \<in> set yearsSelectors. yieldsNoText e s) \<longrightarrow> years y = None))"
proof (intro conjI impI allI)
  assume some: "extractSingleProfile el i = Some r"
  from extractSingleProfile_Some [OF some]
  obtain hl where nm: "extractProfileName el i = Inr (name r)"
    and hl: "extractProfileHeadline el = Inr hl"
    and h: "headline r = (if truthy hl then hl else None)" by blast
  {
    assume "\<forall>s \<in> set headlineSelectors. yieldsNoText el s"
    then have "extractProfileHeadline el = Inr None"
      unfolding extractProfileHeadline_def by (rule extractProfileHeadline_loop_none)
    then show "headline r = None" using hl h by simp
  }
  {
    assume "\<forall>s \<in> set nameSelectors. yieldsNoText el s"
    then have "extractProfileName el i = Inr (''Profile '' @ decimal (i + 1))"
      unfolding extractProfileName_def by (rule extractProfileName_loop_fallback)
    then show "name r = ''Profile '' @ decimal (i + 1)" using nm by simp
  }
next
  assume p: "extractProfileData (Some pg) url = Inr p"
  then have p_eq: "p = \<lparr>profile_name = extractProfileNameFromPage (Some pg),
      profile_headline = extractProfileHeadlineFromPage (Some pg),
      profile_location = extractProfileLocation (Some pg),
      profile_about = extractProfileAbout (Some pg),
      experience = Some (extractProfileExperience (Some pg)),
      education = Some (extractProfileEducation (Some pg)),
      skills = Some (extractProfileSkills (Some pg)),
      profile_url = url\<rparr>"
    by (simp add: extractProfileData_def)
  show "profile_url p = url" by (simp add: p_eq)
  {
    assume "\<forall>s \<in> set pageNameSelectors. pageYieldsNoText pg s"
    then have "pageText_loop pg pageNameSelectors = None" by (rule pageText_loop_none)
    then show "profile_name p = ''Unknown''"
      by (simp add: p_eq extractProfileNameFromPage_def)
  }
  {
    assume "\<forall>s \<in> set pageHeadlineSelectors. pageYieldsNoText pg s"
    then have "pageText_loop pg pageHeadlineSelectors = None" by (rule pageText_loop_none)
    then show "profile_headline p = None"
      by (simp add: p_eq extractProfileHeadlineFromPage_def)
  }
  {
    assume "\<forall>s \<in> set locationSelectors. pageYieldsNoText pg s"
    then have "pageText_loop pg locationSelectors = None" by (rule pageText_loop_none)
    then show "profile_location p = None"
      by (simp add: p_eq extractProfileLocation_def)
  }
  {
    assume "\<forall>s \<in> set aboutSelectors. pageYieldsNoText pg s"
    then have "extractProfileAbout (Some pg) = None" by (rule extractProfileAbout_none)
    then show "profile_about p = None" by (simp add: p_eq)
  }
  {
    fix xs x'
    assume "experience p = Some xs \<and> x' \<in> set xs"
    then have "x' \<in> set (extractProfileExperience (Some pg))" by (simp add: p_eq)
    then show "\<exists>e. extractExperience e = Some x'" by (rule extractProfileExperience_mem)
  }
next
  assume x: "extractExperience e = Some x"
  from extractExperience_Some [OF x]
  obtain t c d ds where t: "entryText_loop e titleSelectors = Inr t"
    and c: "entryText_loop e companySelectors = Inr c"
    and d: "entryText_loop e durationSelectors = Inr d"
    and ds: "entryText_loop e descSelectors = Inr ds"
    and tc: "truthy t \<or> truthy c"
    and xe: "x = \<lparr>title = orElse t ''Unknown Title'', company = orElse c ''Unknown Company'',
      duration = orElse d ''Unknown Duration'', description = ds\<rparr>" by blast
  show "\<not> ((\<forall>s \<in> set titleSelectors. yieldsNoText e s) \<and>
      (\<forall>s \<in> set companySelectors. yieldsNoText e s))"
  proof
    assume a: "(\<forall>s \<in> set titleSelectors. yieldsNoText e s) \<and>
      (\<forall>s \<in> set companySelectors. yieldsNoText e s)"
    then have "entryText_loop e titleSelectors = Inr None"
      and "entryText_loop e companySelectors = Inr None"
      by (simp_all add: entryText_loop_none)
    then show False using t c tc by simp
  qed
  {
    assume "\<forall>s \<in> set titleSelectors. yieldsNoText e s"
    then have "entryText_loop e titleSelectors = Inr None" by (rule entryText_loop_none)
    then show "title x = ''Unknown Title''" using t by (simp add: xe)
  }
  {
    assume "\<forall>s \<in> set companySelectors. yieldsNoText e s"
    then have "entryText_loop e companySelectors = Inr None" by (rule entryText_loop_none)
    then show "company x = ''Unknown Company''" using c by (simp add: xe)
  }
  {
    assume "\<forall>s \<in> set durationSelectors. yieldsNoText e s"
    then have "entryText_loop e durationSelectors = Inr None" by (rule entryText_loop_none)
    then show "duration x = ''Unknown Duration''" using d by (simp add: xe)
  }
  {
    assume "\<forall>s \<in> set descSelectors. yieldsNoText e s"
    then have "entryText_loop e descSelectors = Inr None" by (rule entryText_loop_none)
    then show "description x = None" using ds by (simp add: xe)
  }
next
  assume y: "extractEducation e = Some y"
  from extractEducation_Some [OF y]
  obtain s dg ys where s: "entryText_loop e schoolSelectors = Inr (Some s)"
    and dg: "entryText_loop e degreeSelectors = Inr dg"
    and ys: "entryText_loop e yearsSelectors = Inr ys"
    and ye: "y = \<lparr>school = s, degree = dg, years = ys\<rparr>" by blast
  show "school y \<noteq> []"
    using entryText_loop_truthy [OF s] by (simp add: ye)
  {
    assume "\<forall>s \<in> set degreeSelectors. yieldsNoText e s"
    then have "entryText_loop e degreeSelectors = Inr None" by (rule entryText_loop_none)
    then show "degree y = None" using dg by (simp add: ye)
  }
  {
    assume "\<forall>s \<in> set yearsSelectors. yieldsNoText e s"
    then have "entryText_loop e yearsSelectors = Inr None" by (rule entryText_loop_none)
    then show "years y = None" using ys by (simp add: ye)
  }
qed

lemma unnamed_row_no_name: "\<forall>s \<in> set nameSelectors. yieldsNoText unnamed_row s"
  by (simp add: nameSelectors_def unnamed_row_def yieldsNoText_def blank_def)

lemma unnamed_row_no_headline: "\<forall>s \<in> set headlineSelectors. yieldsNoText unnamed_row s"
  by (simp add: headlineSelectors_def unnamed_row_def yieldsNoText_def blank_def)

lemma unnamed_row_first:
  "extractSingleProfile unnamed_row 0 =
     Some \<lparr>name = ''Profile 1'', profileUrl = ''https://www.linkedin.com/in/jane-doe'',
           headline = None\<rparr>"
  by (simp add: unnamed_row_profile decimal_1)

lemma empty_page_no_text: "pageYieldsNoText empty_page s"
  by (simp add: pageYieldsNoText_def empty_page_def blank_def)

lemma example_entry_experience:
  "extractExperience example_entry =
     Some \<lparr>title = ''Unknown Title'', company = ''Acme'', duration = ''Unknown Duration'',
           description = None\<rparr>"
  by (simp add: extractExperience_def example_entry_def titleSelectors_def companySelectors_def
      durationSelectors_def descSelectors_def trim_examples)

lemma titled_entry_experience:
  "extractExperience titled_entry =
     Some \<lparr>title = ''Engineer'', company = ''Unknown Company'', duration = ''Unknown Duration'',
           description = None\<rparr>"
  by (simp add: extractExperience_def titled_entry_def titleSelectors_def companySelectors_def
      durationSelectors_def descSelectors_def trim_examples)

lemma example_school_education:
  "extractEducation example_school = Some \<lparr>school = ''MIT'', degree = None, years = None\<rparr>"
  by (simp add: extractEducation_def example_school_def schoolSelectors_def degreeSelectors_def
      yearsSelectors_def trim_examples)

lemma example_profile_experience:
  "extractProfileExperience (Some example_profile_page) =
     [\<lparr>title = ''Unknown Title'', company = ''Acme'', duration = ''Unknown Duration'',
       description = None\<rparr>]"
  by (simp add: extractProfileExperience_def example_profile_page_def expExpandButton_def
      experienceSelectors_def example_entry_experience)

text \<open>
  The row that has a link and no name, read as the first row: every name selector
  yields no text, and the name of the record is \<open>Profile 1\<close>, which is not \<open>Unknown\<close>.
\<close>

theorem unnamed_record_counterexample:
  "list_all (yieldsNoText unnamed_row) nameSelectors \<and>
   extractSingleProfile unnamed_row 0 =
     Some \<lparr>name = ''Profile 1'', profileUrl = ''https://www.linkedin.com/in/jane-doe'',
           headline = None\<rparr> \<and>
   name \<lparr>name = ''Profile 1'', profileUrl = ''https://www.linkedin.com/in/jane-doe'',
         headline = None\<rparr> \<noteq> ''Unknown''"
  using unnamed_row_no_name unnamed_row_first by (simp add: list_all_iff)

theorem failed_fields_absent_witness:
  "headline \<lparr>name = ''Profile 1'', profileUrl = ''https://www.linkedin.com/in/jane-doe'',
      headline = None\<rparr> = None \<and>
   ''Profile 1'' = ''Profile '' @ decimal (0 + 1) \<and>
   (\<exists>p. extractProfileData (Some empty_page) ''https://www.linkedin.com/in/jane-doe'' = Inr p \<and>
      profile_name p = ''Unknown'' \<and> profile_headline p = None \<and>
      profile_location p = None \<and> profile_about p = None) \<and>
   (\<exists>p xs. extractProfileData (Some example_profile_page) [] = Inr p \<and>
      experience p = Some xs \<and> (\<exists>e. extractExperience e = Some (hd xs))) \<and>
   title \<lparr>title = ''Unknown Title'', company = ''Acme'', duration = ''Unknown Duration'',
      description = None\<rparr> = ''Unknown Title'' \<and>
   company \<lparr>title = ''Engineer'', company = ''Unknown Company'',
      duration = ''Unknown Duration'', description = None\<rparr> = ''Unknown Company'' \<and>
   degree \<lparr>school = ''MIT'', degree = None, years = None\<rparr> = None"
proof -
  let ?r = "\<lparr>name = ''Profile 1'', profileUrl = ''https://www.linkedin.com/in/jane-doe'',
    headline = None\<rparr>"
  note t1 = failed_fields_absent
    [where el = unnamed_row and i = 0 and r = ?r, THEN conjunct1, THEN mp, OF unnamed_row_first]
  have w1: "headline ?r = None"
    using t1 [THEN conjunct1, THEN mp, OF unnamed_row_no_headline] .
  have w2: "name ?r = ''Profile '' @ decimal (0 + 1)"
    using t1 [THEN conjunct2, THEN mp, OF unnamed_row_no_name] .
  obtain p where p: "extractProfileData (Some empty_page) ''https://www.linkedin.com/in/jane-doe''
      = Inr p"
    by (simp add: extractProfileData_def)
  note t2 = failed_fields_absent
    [where pg = empty_page and p = p, THEN conjunct2, THEN conjunct1, THEN mp, OF p]
  have w3: "profile_name p = ''Unknown'' \<and> profile_headline p = None \<and>
      profile_location p = None \<and> profile_about p = None"
    using t2 by (simp add: empty_page_no_text)
  obtain q where q: "extractProfileData (Some example_profile_page) [] = Inr q"
    by (simp add: extractProfileData_def)
  then have qx: "experience q = Some [\<lparr>title = ''Unknown Title'', company = ''Acme'',
      duration = ''Unknown Duration'', description = None\<rparr>]"
    by (auto simp: extractProfileData_def example_profile_experience)
  note t3 = failed_fields_absent
    [where pg = example_profile_page and p = q, THEN conjunct2, THEN conjunct1, THEN mp, OF q]
  have w4: "\<exists>e. extractExperience e = Some (hd [\<lparr>title = ''Unknown Title'', company = ''Acme'',
      duration = ''Unknown Duration'', description = None\<rparr>])"
    using t3 qx by simp
  let ?x = "\<lparr>title = ''Unknown Title'', company = ''Acme'', duration = ''Unknown Duration'',
    description = None\<rparr>"
  let ?x' = "\<lparr>title = ''Engineer'', company = ''Unknown Company'',
    duration = ''Unknown Duration'', description = None\<rparr>"
  let ?y = "\<lparr>school = ''MIT'', degree = None, years = None\<rparr>"
  have no_title: "\<forall>s \<in> set titleSelectors. yieldsNoText example_entry s"
    by (simp add: titleSelectors_def example_entry_def yieldsNoText_def blank_def)
  have no_company: "\<forall>s \<in> set companySelectors. yieldsNoText titled_entry s"
    by (simp add: companySelectors_def titled_entry_def yieldsNoText_def blank_def)
  have no_degree: "\<forall>s \<in> set degreeSelectors. yieldsNoText example_school s"
    by (simp add: degreeSelectors_def example_school_def yieldsNoText_def blank_def)
  note t4 = failed_fields_absent
    [where e = example_entry and x = ?x, THEN conjunct2, THEN conjunct2, THEN conjunct1,
     THEN mp, OF example_entry_experience]
  have w5: "title ?x = ''Unknown Title''"
    using t4 [THEN conjunct2, THEN conjunct1, THEN mp, OF no_title] .
  note t5 = failed_fields_absent
    [where e = titled_entry and x = ?x', THEN conjunct2, THEN conjunct2, THEN conjunct1,
     THEN mp, OF titled_entry_experience]
  have w6: "company ?x' = ''Unknown Company''"
    using t5 [THEN conjunct2, THEN conjunct2, THEN conjunct1, THEN mp, OF no_company] .
  note t6 = failed_fields_absent
    [where e = example_school and y = ?y, THEN conjunct2, THEN conjunct2, THEN conjunct2,
     THEN mp, OF example_school_education]
  have w7: "degree ?y = None"
    using t6 [THEN conjunct2, THEN conjunct1, THEN mp, OF no_degree] .
  have w12: "headline ?r = None \<and> ''Profile 1'' = ''Profile '' @ decimal (0 + 1)"
    using w1 w2 by simp
  have w34: "(\<exists>p. extractProfileData (Some empty_page) ''https://www.linkedin.com/in/jane-doe''
        = Inr p \<and>
      profile_name p = ''Unknown'' \<and> profile_headline p = None \<and>
      profile_location p = None \<and> profile_about p = None) \<and>
   (\<exists>p xs. extractProfileData (Some example_profile_page) [] = Inr p \<and>
      experience p = Some xs \<and> (\<exists>e. extractExperience e = Some (hd xs)))"
    using w3 w4 p q qx by blast
  show ?thesis
    using w12 w34 w5 w6 w7 by blast
qed

end
